theory Spec2Isabelle
  imports Main "HOL-Library.DAList"
begin

section \<open>JavaScript values\<close>

text \<open>
  The values that travel through the server are JSON values: request bodies parsed by
  \<^verbatim>\<open>express.json()\<close>, provider bodies parsed by \<^verbatim>\<open>JSON.parse\<close> and
  \<^verbatim>\<open>resp.json()\<close>, and the objects handed to \<^verbatim>\<open>res.json\<close>. A JavaScript value that may
  be \<^verbatim>\<open>undefined\<close> is a \<open>json option\<close>, \<open>None\<close> being \<^verbatim>\<open>undefined\<close>.
  Numbers are kept as integers: the program only tests numbers for being zero and only
  produces millisecond timestamps.
\<close>

datatype json =
    JNull
  | JBool bool
  | JNum int
  | JStr string
  | JArr "json list"
  | JObj "(string \<times> json) list"

type_synonym jsval = "json option"

text \<open>JavaScript truthiness, as tested by \<^verbatim>\<open>!x\<close> and \<^verbatim>\<open>x || y\<close>.\<close>

fun truthy :: "jsval \<Rightarrow> bool" where
  "truthy None = False"
| "truthy (Some JNull) = False"
| "truthy (Some (JBool b)) = b"
| "truthy (Some (JNum n)) = (n \<noteq> 0)"
| "truthy (Some (JStr s)) = (s \<noteq> [])"
| "truthy (Some (JArr xs)) = True"
| "truthy (Some (JObj fs)) = True"

text \<open>\<^verbatim>\<open>x || y\<close>.\<close>

definition js_or :: "jsval \<Rightarrow> jsval \<Rightarrow> jsval" where
  "js_or x y = (if truthy x then x else y)"

text \<open>\<^verbatim>\<open>x || d\<close> where \<open>d\<close> is not \<^verbatim>\<open>undefined\<close>.\<close>

definition js_or_default :: "jsval \<Rightarrow> json \<Rightarrow> json" where
  "js_or_default x d = (case x of None \<Rightarrow> d | Some v \<Rightarrow> if truthy x then v else d)"

text \<open>
  Reading a property \<^verbatim>\<open>v.k\<close> of a value that is neither \<^verbatim>\<open>null\<close> nor
  \<^verbatim>\<open>undefined\<close>: the member of an object, \<^verbatim>\<open>undefined\<close> on anything else (none of
  the names the program reads is a property of a string, a number or an array). On
  \<^verbatim>\<open>null\<close> the read throws a TypeError; the handlers test for that case before they
  call \<open>get_prop\<close>.
\<close>

fun get_prop :: "json \<Rightarrow> string \<Rightarrow> jsval" where
  "get_prop (JObj fs) k = map_of fs k"
| "get_prop _ k = None"

text \<open>
  An object literal handed to \<^verbatim>\<open>res.json\<close>: \<^verbatim>\<open>JSON.stringify\<close> leaves out the
  members whose value is \<^verbatim>\<open>undefined\<close>.
\<close>

fun obj :: "(string \<times> jsval) list \<Rightarrow> (string \<times> json) list" where
  "obj [] = []"
| "obj ((k, None) # kvs) = obj kvs"
| "obj ((k, Some v) # kvs) = (k, v) # obj kvs"

text \<open>\<^verbatim>\<open>s.startsWith(p)\<close> and \<^verbatim>\<open>s.slice(a, b)\<close>, \<^verbatim>\<open>s.slice(a)\<close> for \<open>0 \<le> a \<le> b\<close>.\<close>

definition startsWith :: "string \<Rightarrow> string \<Rightarrow> bool" where
  "startsWith s p = (take (length p) s = p)"

definition slice :: "string \<Rightarrow> nat \<Rightarrow> nat \<Rightarrow> string" where
  "slice s a b = take (b - a) (drop a s)"

definition slice_from :: "string \<Rightarrow> nat \<Rightarrow> string" where
  "slice_from s a = drop a s"

section \<open>The in-memory store\<close>

text \<open>
  A JavaScript \<^verbatim>\<open>Map\<close> keeps its entries in insertion order with one entry per key:
  an association list with distinct keys. \<^verbatim>\<open>set\<close> replaces the value of a present key
  in place and appends a new key, \<^verbatim>\<open>delete\<close> removes the entry, \<^verbatim>\<open>entries()\<close>
  lists the entries.
\<close>

type_synonym ('k, 'v) jsmap = "('k, 'v) alist"

definition map_get :: "('k, 'v) jsmap \<Rightarrow> 'k \<Rightarrow> 'v option" where
  "map_get m k = DAList.lookup m k"

definition map_set :: "('k, 'v) jsmap \<Rightarrow> 'k \<Rightarrow> 'v \<Rightarrow> ('k, 'v) jsmap" where
  "map_set m k v = DAList.update k v m"

definition map_delete :: "('k, 'v) jsmap \<Rightarrow> 'k \<Rightarrow> ('k, 'v) jsmap" where
  "map_delete m k = DAList.delete k m"

definition entries :: "('k, 'v) jsmap \<Rightarrow> ('k \<times> 'v) list" where
  "entries m = DAList.impl_of m"

text \<open>
  The rows of the two maps share the user id, the provider access token and the expiry
  timestamp (milliseconds, as \<^verbatim>\<open>Date.now()\<close> counts them); a device code adds the
  \<open>used\<close> flag, a session the device label.

  A device-code entry is an object that the program changes in place: a claim looks the
  object up, awaits the provider and then writes \<^verbatim>\<open>row.used = true\<close> to the object it
  holds, whether or not the map still holds that object. The maps of the model hold
  values, so every device-code entry carries the identity of its object: \<open>oid\<close>, the
  number of entries created before it, with \<open>allocated\<close> counting the entries created.
  Neither is data of the program; they only tell one object from another. A session
  entry is never changed after it is stored.
\<close>

record row =
  userId :: jsval
  discord_access_token :: string
  exp :: int

record device_row = row +
  used :: bool
  oid :: nat

record session_row = row +
  device_name :: json

record state =
  deviceCodes :: "(string, device_row) jsmap"
  sessions :: "(string, session_row) jsmap"
  allocated :: nat

definition init :: state where
  "init = \<lparr>deviceCodes = DAList.empty, sessions = DAList.empty, allocated = 0\<rparr>"

text \<open>
  \<^verbatim>\<open>deviceCodes.get(device_code)\<close> with a value from the request body: every key of
  the map is a string, so only a string can be found. The key is returned with the
  entry, to write to the entry later.
\<close>

fun get_by_value :: "(string, 'v) jsmap \<Rightarrow> jsval \<Rightarrow> (string \<times> 'v) option" where
  "get_by_value m (Some (JStr c)) = map_option (Pair c) (map_get m c)"
| "get_by_value m _ = None"

section \<open>Helpers\<close>

definition alphabet :: string where
  "alphabet = ''ABCDEFGHJKMNPQRSTUVWXYZ23456789''"

text \<open>
  \<^verbatim>\<open>alphabet[i]\<close>, joined into a string: a character of the alphabet, and nothing
  for an index out of range (\<^verbatim>\<open>join\<close> writes \<^verbatim>\<open>undefined\<close> as the empty string).
\<close>

definition pick :: "nat \<Rightarrow> string" where
  "pick i = (if i < length alphabet then [alphabet ! i] else [])"

text \<open>
  \<open>genDeviceCode len rnd\<close>, where \<open>rnd i\<close> is the value of
  \<^verbatim>\<open>Math.floor(Math.random() * alphabet.length)\<close> at the \<open>i\<close>-th of the \<open>len\<close> draws.
  \<^verbatim>\<open>Math.random()\<close> lies in \<open>[0, 1)\<close>, so every draw is below \<open>length alphabet\<close>.
\<close>

definition genDeviceCode :: "nat \<Rightarrow> (nat \<Rightarrow> nat) \<Rightarrow> string" where
  "genDeviceCode len rnd =
     (let raw = concat (map (\<lambda>i. pick (rnd i)) [0..<len])
      in slice raw 0 4 @ ''-'' @ slice raw 4 8 @ ''-'' @ slice_from raw 8)"

text \<open>
  \<open>genSessionToken r1 r2\<close>, where \<open>r1\<close> and \<open>r2\<close> are the two strings
  \<^verbatim>\<open>Math.random().toString(36).slice(2)\<close>.
\<close>

definition genSessionToken :: "string \<Rightarrow> string \<Rightarrow> string" where
  "genSessionToken r1 r2 = ''sess_'' @ (r1 @ r2)"

text \<open>
  The token of an Authorization header, as \<open>resolveDiscordTokenFromAuthHeader\<close> and
  \<^verbatim>\<open>/api/device/start\<close> both compute it:
  \<^verbatim>\<open>(authorization || "").startsWith("Bearer ") ? authorization.slice(7) : ""\<close>.
  A header that is absent is \<open>None\<close>.
\<close>

definition bearer :: "string option \<Rightarrow> string" where
  "bearer authorization =
     (let a = (case authorization of None \<Rightarrow> [] | Some h \<Rightarrow> h)
      in if startsWith a ''Bearer '' then slice_from a 7 else [])"

text \<open>
  The value of a header as Node's HTTP parser hands it to the handlers in
  \<^verbatim>\<open>req.headers\<close>: the blanks before and after the value are stripped, so a value that
  is not empty neither starts nor ends with a blank.
\<close>

definition trimmed :: "string \<Rightarrow> bool" where
  "trimmed a = (a = [] \<or> (hd a \<noteq> CHR '' '' \<and> last a \<noteq> CHR '' ''))"

text \<open>
  \<open>resolveDiscordTokenFromAuthHeader\<close> reads the sessions map and the clock
  (\<open>now\<close> is \<^verbatim>\<open>Date.now()\<close>); the result \<open>None\<close> is \<^verbatim>\<open>null\<close>.
\<close>

definition resolveDiscordTokenFromAuthHeader ::
    "state \<Rightarrow> int \<Rightarrow> string option \<Rightarrow> string option" where
  "resolveDiscordTokenFromAuthHeader s now authorization =
     (let tok = bearer authorization
      in if tok = [] then None
         else case map_get (sessions s) tok of
                Some sess \<Rightarrow> if exp sess > now then Some (discord_access_token sess) else Some tok
              | None \<Rightarrow> Some tok)"

section \<open>The provider and the responses\<close>

text \<open>
  A call to the provider's HTTP API is named by its endpoint and the data the server
  puts into it: the form fields of the token exchange, or the value interpolated after
  \<^verbatim>\<open>Bearer\<close> in the Authorization header.
\<close>

datatype upstream_call =
    OAuthToken "string option" "string option" jsval jsval
  | UsersMe jsval
  | UsersMeGuilds jsval

text \<open>
  What the provider answered: the status, the body as text, and what \<^verbatim>\<open>JSON.parse\<close>
  makes of the body (\<open>None\<close> when it throws a SyntaxError). \<^verbatim>\<open>resp.ok\<close> is the
  status being in the range 200 to 299. A \<^verbatim>\<open>fetch\<close> whose promise rejects (no
  connection, a body that cannot be read) is \<open>None\<close>.
\<close>

record fetch_resp =
  status :: nat
  text_of :: string
  parsed :: "json option"

definition ok :: "fetch_resp \<Rightarrow> bool" where
  "ok r = (200 \<le> status r \<and> status r \<le> 299)"

type_synonym fetch = "upstream_call \<Rightarrow> fetch_resp option"

text \<open>
  The answer of a handler: \<^verbatim>\<open>res.status(n).json(o)\<close> or \<^verbatim>\<open>res.send(text)\<close>. The
  outcome of a request is the answer, the store afterwards and the provider calls that
  were made, in order. A handler that reads the store only before its \<^verbatim>\<open>await\<close> or
  writes it only afterwards is one step; the claim handler does both and is modelled in
  its two parts. Writes to the console are left out.
\<close>

datatype body = Json json | Send string

record response =
  res_status :: nat
  res_body :: body

record outcome =
  resp :: response
  st :: state
  calls :: "upstream_call list"

definition reply :: "state \<Rightarrow> upstream_call list \<Rightarrow> nat \<Rightarrow> (string \<times> jsval) list \<Rightarrow> outcome" where
  "reply s cs n kvs =
     \<lparr>resp = \<lparr>res_status = n, res_body = Json (JObj (obj kvs))\<rparr>, st = s, calls = cs\<rparr>"

definition error :: "string \<Rightarrow> string \<times> jsval" where
  "error e = (''error'', Some (JStr e))"

text \<open>The \<^verbatim>\<open>catch\<close> block of every handler.\<close>

definition server_error :: "state \<Rightarrow> upstream_call list \<Rightarrow> outcome" where
  "server_error s cs = reply s cs 500 [error ''server_error'']"

text \<open>Destructuring \<^verbatim>\<open>const { k } = req.body || {}\<close>.\<close>

definition field :: "jsval \<Rightarrow> string \<Rightarrow> jsval" where
  "field req_body k =
     (case js_or req_body (Some (JObj [])) of None \<Rightarrow> None | Some b \<Rightarrow> get_prop b k)"

section \<open>The handlers\<close>

definition health :: "state \<Rightarrow> int \<Rightarrow> outcome" where
  "health s now = reply s [] 200 [(''ok'', Some (JBool True)), (''ts'', Some (JNum now))]"

record config =
  DISCORD_CLIENT_ID :: "string option"
  DISCORD_CLIENT_SECRET :: "string option"
  DISCORD_REDIRECT_URI :: "string option"

definition user_json :: "json \<Rightarrow> json" where
  "user_json u = JObj (obj
     [(''id'', get_prop u ''id''),
      (''username'', get_prop u ''username''),
      (''global_name'', get_prop u ''global_name''),
      (''avatar'', get_prop u ''avatar''),
      (''email'', get_prop u ''email'')])"

text \<open>\<^verbatim>\<open>POST /api/auth/discord\<close>\<close>

definition auth_discord :: "config \<Rightarrow> state \<Rightarrow> fetch \<Rightarrow> jsval \<Rightarrow> outcome" where
  "auth_discord cfg s fetch req_body =
     (let code = field req_body ''code'';
          redirect_uri = field req_body ''redirect_uri''
      in if \<not> truthy code then reply s [] 400 [error ''missing_code'']
         else
           let redirectUri = js_or redirect_uri (map_option JStr (DISCORD_REDIRECT_URI cfg));
               c1 = OAuthToken (DISCORD_CLIENT_ID cfg) (DISCORD_CLIENT_SECRET cfg) code redirectUri
           in case fetch c1 of
                None \<Rightarrow> server_error s [c1]
              | Some tokenResp \<Rightarrow>
                 (case parsed tokenResp of
                    None \<Rightarrow> server_error s [c1]
                  | Some tokenData \<Rightarrow>
                      if \<not> ok tokenResp
                      then reply s [c1] 400 [error ''token_exchange_failed'', (''details'', Some tokenData)]
                      else if tokenData = JNull then server_error s [c1]
                      else
                        let c2 = UsersMe (get_prop tokenData ''access_token'')
                        in (case fetch c2 of
                             None \<Rightarrow> server_error s [c1, c2]
                           | Some userResp \<Rightarrow>
                              (case parsed userResp of
                                 None \<Rightarrow> server_error s [c1, c2]
                               | Some user \<Rightarrow>
                                   if \<not> truthy (Some user) \<or> \<not> truthy (get_prop user ''id'')
                                   then reply s [c1, c2] 400
                                          [error ''user_fetch_failed'', (''details'', Some user)]
                                   else reply s [c1, c2] 200
                                          [(''user'', Some (user_json user)),
                                           (''oauth'', Some (JObj (obj
                                              [(''scope'', get_prop tokenData ''scope''),
                                               (''token_type'', get_prop tokenData ''token_type'')]))),
                                           (''access_token'', get_prop tokenData ''access_token'')]))))"

text \<open>
  \<^verbatim>\<open>POST /api/device/start\<close>. \<open>rnd\<close> are the draws of \<open>genDeviceCode\<close>, \<open>now\<close> is
  \<^verbatim>\<open>Date.now()\<close>. The object literal of the new entry reads \<^verbatim>\<open>me.id\<close> before
  \<^verbatim>\<open>deviceCodes.set\<close> runs, so a body \<^verbatim>\<open>null\<close> throws with the store untouched.
\<close>

definition device_start :: "state \<Rightarrow> string option \<Rightarrow> fetch \<Rightarrow> (nat \<Rightarrow> nat) \<Rightarrow> int \<Rightarrow> outcome" where
  "device_start s authorization fetch rnd now =
     (let discordToken = bearer authorization
      in if discordToken = [] then reply s [] 401 [error ''missing_bearer_token'']
         else
           let c = UsersMe (Some (JStr discordToken))
           in case fetch c of
                None \<Rightarrow> server_error s [c]
              | Some meR \<Rightarrow>
                  if \<not> ok meR
                  then reply s [c] 401
                         [error ''discord_unauthorized'', (''details'', Some (JStr (text_of meR)))]
                  else
                   (case parsed meR of
                      None \<Rightarrow> server_error s [c]
                    | Some me \<Rightarrow>
                        let code = genDeviceCode 12 rnd;
                            exp = now + 10 * 60 * 1000
                        in if me = JNull then server_error s [c]
                           else reply
                                  (s\<lparr>deviceCodes := map_set (deviceCodes s) code
                                       \<lparr>userId = get_prop me ''id'', discord_access_token = discordToken,
                                        exp = exp, used = False, oid = allocated s\<rparr>,
                                     allocated := Suc (allocated s)\<rparr>)
                                  [c] 200
                                  [(''device_code'', Some (JStr code)),
                                   (''expires_at'', Some (JNum exp))]))"

text \<open>
  \<^verbatim>\<open>POST /api/device/claim\<close>. The handler runs in two parts, with the \<^verbatim>\<open>await\<close> of
  the provider's answer between them; while it waits, other requests and the timer run.

  \<open>claim_begin\<close> is the part before the \<^verbatim>\<open>await\<close>, with \<open>now1\<close> its \<^verbatim>\<open>Date.now()\<close>:
  it answers at once (\<open>Inl\<close>), or it sends the user lookup to the provider and waits
  (\<open>Inr\<close>), holding on to the key, to the entry object \<^verbatim>\<open>row\<close> it has looked up and to
  the device_name of the request. It changes nothing.
\<close>

record pending =
  p_key :: string
  p_row :: device_row
  p_device_name :: jsval

definition claim_begin :: "state \<Rightarrow> jsval \<Rightarrow> int \<Rightarrow> outcome + pending" where
  "claim_begin s req_body now1 =
     (let device_code = field req_body ''device_code'';
          device_name = field req_body ''device_name''
      in if \<not> truthy device_code then Inl (reply s [] 400 [error ''missing_code''])
         else case get_by_value (deviceCodes s) device_code of
                None \<Rightarrow> Inl (reply s [] 400 [error ''invalid_code''])
              | Some (k, row) \<Rightarrow>
                  if used row then Inl (reply s [] 400 [error ''already_used''])
                  else if exp row < now1 then Inl (reply s [] 400 [error ''expired''])
                  else Inr \<lparr>p_key = k, p_row = row, p_device_name = device_name\<rparr>)"

text \<open>
  \<^verbatim>\<open>row.used = true\<close>, for the object with identity \<open>i\<close> that was stored under the key
  \<open>k\<close>: the entry of the map changes when the map still holds that object.
\<close>

definition set_used :: "(string, device_row) jsmap \<Rightarrow> string \<Rightarrow> nat \<Rightarrow> (string, device_row) jsmap" where
  "set_used m k i =
     (case map_get m k of
        None \<Rightarrow> m
      | Some r \<Rightarrow> if oid r = i then map_set m k (r\<lparr>used := True\<rparr>) else m)"

text \<open>
  \<open>claim_end\<close> is the part after the \<^verbatim>\<open>await\<close>, run in the store \<open>s\<close> of that moment:
  \<open>fetch\<close> gives the provider's answer, \<open>now2\<close> is \<^verbatim>\<open>Date.now()\<close> at the creation of
  the session, \<open>r1\<close>, \<open>r2\<close> are the random strings of \<open>genSessionToken\<close>. The answer reads
  \<^verbatim>\<open>me.id\<close> after the store has been changed: a body \<^verbatim>\<open>null\<close> throws there, and the
  \<^verbatim>\<open>catch\<close> block answers 500 with the changes kept.
\<close>

definition claim_end :: "state \<Rightarrow> pending \<Rightarrow> fetch \<Rightarrow> int \<Rightarrow> string \<Rightarrow> string \<Rightarrow> outcome" where
  "claim_end s p fetch now2 r1 r2 =
     (let row = p_row p;
          c = UsersMe (Some (JStr (discord_access_token row)))
      in case fetch c of
           None \<Rightarrow> server_error s [c]
         | Some meR \<Rightarrow>
             if \<not> ok meR
             then reply s [c] 401
                    [error ''discord_unauthorized'', (''details'', Some (JStr (text_of meR)))]
             else
              (case parsed meR of
                 None \<Rightarrow> server_error s [c]
               | Some me \<Rightarrow>
                   let session_token = genSessionToken r1 r2;
                       exp = now2 + 30 * 24 * 60 * 60 * 1000;
                       s' = s\<lparr>deviceCodes := set_used (deviceCodes s) (p_key p) (oid row),
                              sessions :=
                                map_set (sessions s) session_token
                                  \<lparr>userId = userId row,
                                   discord_access_token = discord_access_token row,
                                   exp = exp,
                                   device_name = js_or_default (p_device_name p) (JStr ''Windows'')\<rparr>\<rparr>
                   in if me = JNull then server_error s' [c]
                      else reply s' [c] 200
                             [(''session_token'', Some (JStr session_token)),
                              (''user'', Some (user_json me)),
                              (''expires_at'', Some (JNum exp))]))"

text \<open>
  \<open>device_claim\<close> is a claim that nothing interrupts: the second part runs in the store
  the first part has seen.
\<close>

definition device_claim ::
    "state \<Rightarrow> jsval \<Rightarrow> int \<Rightarrow> fetch \<Rightarrow> int \<Rightarrow> string \<Rightarrow> string \<Rightarrow> outcome" where
  "device_claim s req_body now1 fetch now2 r1 r2 =
     (case claim_begin s req_body now1 of
        Inl out \<Rightarrow> out
      | Inr p \<Rightarrow> claim_end s p fetch now2 r1 r2)"

text \<open>
  \<^verbatim>\<open>GET /api/me\<close> and \<^verbatim>\<open>GET /api/discord/guilds\<close>: the token is resolved, the
  provider is asked, and its answer is relayed.
\<close>

definition api_me :: "state \<Rightarrow> string option \<Rightarrow> int \<Rightarrow> fetch \<Rightarrow> outcome" where
  "api_me s authorization now fetch =
     (case resolveDiscordTokenFromAuthHeader s now authorization of
        None \<Rightarrow> reply s [] 401 [error ''missing_token'']
      | Some discordToken \<Rightarrow>
          if discordToken = [] then reply s [] 401 [error ''missing_token'']
          else
            let c = UsersMe (Some (JStr discordToken))
            in (case fetch c of
                  None \<Rightarrow> server_error s [c]
                | Some r \<Rightarrow>
                    if \<not> ok r
                    then reply s [c] (status r) [error ''discord_error'', (''body'', Some (JStr (text_of r)))]
                    else \<lparr>resp = \<lparr>res_status = 200, res_body = Send (text_of r)\<rparr>, st = s, calls = [c]\<rparr>))"

definition api_guilds :: "state \<Rightarrow> string option \<Rightarrow> int \<Rightarrow> fetch \<Rightarrow> outcome" where
  "api_guilds s authorization now fetch =
     (case resolveDiscordTokenFromAuthHeader s now authorization of
        None \<Rightarrow> reply s [] 401 [error ''missing_bearer_token'']
      | Some discordToken \<Rightarrow>
          if discordToken = [] then reply s [] 401 [error ''missing_bearer_token'']
          else
            let c = UsersMeGuilds (Some (JStr discordToken))
            in (case fetch c of
                  None \<Rightarrow> server_error s [c]
                | Some r \<Rightarrow>
                    if \<not> ok r
                    then reply s [c] (status r) [error ''discord_error'', (''body'', Some (JStr (text_of r)))]
                    else \<lparr>resp = \<lparr>res_status = 200, res_body = Send (text_of r)\<rparr>, st = s, calls = [c]\<rparr>))"

section \<open>The periodic sweep\<close>

text \<open>
  The timer's callback, with \<open>now\<close> its \<^verbatim>\<open>Date.now()\<close>. Each loop walks the entries of
  a map and deletes from that map the entry it is looking at when the test holds.
\<close>

definition cleanup :: "state \<Rightarrow> int \<Rightarrow> state" where
  "cleanup s now =
     (let sessions' =
            fold (\<lambda>(k, v) m. if exp v \<le> now then map_delete m k else m)
              (entries (sessions s)) (sessions s);
          deviceCodes' =
            fold (\<lambda>(k, v) m. if exp v \<le> now \<or> used v then map_delete m k else m)
              (entries (deviceCodes s)) (deviceCodes s)
      in s\<lparr>sessions := sessions', deviceCodes := deviceCodes'\<rparr>)"

section \<open>The server as a transition system\<close>

text \<open>
  One event is one request or one tick of the timer, with everything the handler reads
  from outside: the request, the clock, the random draws and the provider's answers.
\<close>

datatype event =
    Health int
  | AuthDiscord config fetch jsval
  | DeviceStart "string option" fetch "nat \<Rightarrow> nat" int
  | DeviceClaim jsval int fetch int string string
  | Me "string option" int fetch
  | Guilds "string option" int fetch
  | Cleanup int

fun step :: "state \<Rightarrow> event \<Rightarrow> state" where
  "step s (Health now) = st (health s now)"
| "step s (AuthDiscord cfg fetch req_body) = st (auth_discord cfg s fetch req_body)"
| "step s (DeviceStart authorization fetch rnd now) = st (device_start s authorization fetch rnd now)"
| "step s (DeviceClaim req_body now1 fetch now2 r1 r2) =
     st (device_claim s req_body now1 fetch now2 r1 r2)"
| "step s (Me authorization now fetch) = st (api_me s authorization now fetch)"
| "step s (Guilds authorization now fetch) = st (api_guilds s authorization now fetch)"
| "step s (Cleanup now) = cleanup s now"

text \<open>The states the server can be in: from the empty store, by any events.\<close>

inductive reachable :: "state \<Rightarrow> bool" where
  reachable_init: "reachable init"
| reachable_step: "reachable s \<Longrightarrow> reachable (step s e)"

text \<open>
  Events that can touch a given entry: \<open>issues c e\<close> holds when \<open>e\<close> is a start request
  whose draws spell the device code \<open>c\<close>; \<open>keeps t x e\<close> holds unless \<open>e\<close> is a claim
  whose random strings spell the session token \<open>t\<close>, or a sweep at or after the time
  \<open>x\<close>. A device code is \<open>spent\<close> in a store that holds it as used or does not hold it.
\<close>

fun issues :: "string \<Rightarrow> event \<Rightarrow> bool" where
  "issues c (DeviceStart authorization fetch rnd now) = (genDeviceCode 12 rnd = c)"
| "issues c _ = False"

fun keeps :: "string \<Rightarrow> int \<Rightarrow> event \<Rightarrow> bool" where
  "keeps t x (DeviceClaim req_body now1 fetch now2 r1 r2) = (genSessionToken r1 r2 \<noteq> t)"
| "keeps t x (Cleanup now) = (now < x)"
| "keeps t x _ = True"

definition spent :: "state \<Rightarrow> string \<Rightarrow> bool" where
  "spent s c = (case map_get (deviceCodes s) c of None \<Rightarrow> True | Some row \<Rightarrow> used row)"

text \<open>
  The server with claims in flight. A claim that waits for the provider has changed
  nothing yet; when the answer arrives, its second part runs in the store of that
  moment. A move is an event, or the second part of a claim that began earlier.
\<close>

datatype move =
    Whole event
  | Finish pending fetch int string string

fun play :: "state \<Rightarrow> move \<Rightarrow> state" where
  "play s (Whole e) = step s e"
| "play s (Finish p fetch now2 r1 r2) = st (claim_end s p fetch now2 r1 r2)"

fun reissues :: "string \<Rightarrow> move \<Rightarrow> bool" where
  "reissues c (Whole e) = issues c e"
| "reissues c (Finish p fetch now2 r1 r2) = False"

text \<open>
  While a claim of the code \<open>c\<close> waits, holding the object with identity \<open>i\<close>, the map
  holds for \<open>c\<close> that object, or a used one, or nothing: \<open>held s c i\<close>.
\<close>

definition held :: "state \<Rightarrow> string \<Rightarrow> nat \<Rightarrow> bool" where
  "held s c i = (case map_get (deviceCodes s) c of None \<Rightarrow> True | Some row \<Rightarrow> used row \<or> oid row = i)"

section \<open>Example data\<close>

text \<open>
  A provider that accepts every token and answers with the empty object, one that
  refuses every token with a body that is not JSON, one that answers every call with
  status 400 and the empty object, one that answers with status 502 and a page of HTML,
  and one that knows the user and answers with the object holding the id 42.
  \<open>claim_body\<close> claims the code \<open>ABCD-EFGH-JKMN\<close>, which \<open>genDeviceCode\<close> makes of
  the draws 0, 1, 2, ...; \<open>named_body\<close> claims it with the device_name \<open>Laptop\<close>,
  \<open>blank_body\<close> with an empty device_name; \<open>unknown_body\<close> claims a code that was
  never issued and \<open>empty_body\<close> the empty code. \<open>started\<close> is the store after one
  device code has been issued at time 0, \<open>claimed\<close> the store after that code has been
  claimed at time 1000; \<open>issued\<close> is \<open>started\<close> with the provider that knows the user.
  \<open>waiting\<close> is what a claim of the code holds while it waits for the provider, when it
  began in \<open>started\<close>.
\<close>

definition accept :: fetch where
  "accept c = Some \<lparr>status = 200, text_of = ''{}'', parsed = Some (JObj [])\<rparr>"

definition refuse :: fetch where
  "refuse c = Some \<lparr>status = 401, text_of = ''Unauthorized'', parsed = None\<rparr>"

definition reject :: fetch where
  "reject c = Some \<lparr>status = 400, text_of = ''{}'', parsed = Some (JObj [])\<rparr>"

definition claim_body :: jsval where
  "claim_body = Some (JObj [(''device_code'', JStr ''ABCD-EFGH-JKMN'')])"

definition unknown_body :: jsval where
  "unknown_body = Some (JObj [(''device_code'', JStr ''ZZZZ-ZZZZ-ZZZZ'')])"

definition login_body :: jsval where
  "login_body = Some (JObj [(''code'', JStr ''abc'')])"

definition no_config :: config where
  "no_config = \<lparr>DISCORD_CLIENT_ID = None, DISCORD_CLIENT_SECRET = None, DISCORD_REDIRECT_URI = None\<rparr>"

definition bad_gateway :: fetch where
  "bad_gateway c = Some \<lparr>status = 502, text_of = ''<html>502 Bad Gateway</html>'', parsed = None\<rparr>"

definition known :: fetch where
  "known c = Some \<lparr>status = 200, text_of = ''{'' @ [CHR 0x22] @ ''id'' @ [CHR 0x22] @ '':42}'',
                    parsed = Some (JObj [(''id'', JNum 42)])\<rparr>"



definition empty_body :: jsval where
  "empty_body = Some (JObj [(''device_code'', JStr [])])"

definition issued :: state where
  "issued = step init (DeviceStart (Some ''Bearer tok'') known (\<lambda>i. i) 0)"

definition waiting :: pending where
  "waiting = \<lparr>p_key = ''ABCD-EFGH-JKMN'',
              p_row = \<lparr>userId = None, discord_access_token = ''tok'', exp = 600000, used = False,
                       oid = 0\<rparr>,
              p_device_name = None\<rparr>"

definition started :: state where
  "started = step init (DeviceStart (Some ''Bearer tok'') accept (\<lambda>i. i) 0)"

definition claimed :: state where
  "claimed = step started (DeviceClaim claim_body 1000 accept 1001 ''a'' ''b'')"

section \<open>The map operations\<close>

lemma map_get_empty: "map_get DAList.empty k = None"
  by (simp add: map_get_def)

lemma map_get_set: "map_get (map_set m k v) k' = (if k' = k then Some v else map_get m k')"
  by (simp add: map_get_def map_set_def)

lemma map_get_delete: "map_get (map_delete m k) k' = (if k' = k then None else map_get m k')"
  by (simp add: map_get_def map_delete_def)

lemma map_get_entries: "map_get m k = map_of (entries m) k"
  by (simp add: map_get_def entries_def DAList.lookup.rep_eq)

lemma entries_empty: "entries DAList.empty = []"
  by (simp add: entries_def DAList.empty.rep_eq)

lemma entries_set: "entries (map_set m k v) = AList.update k v (entries m)"
  by (simp add: entries_def map_set_def DAList.update.rep_eq)

lemma entries_delete: "entries (map_delete m k) = filter (\<lambda>(k', v). k' \<noteq> k) (entries m)"
  by (auto simp: entries_def map_delete_def DAList.delete.rep_eq AList.delete_eq intro!: filter_cong)

lemma distinct_entries: "distinct (map fst (entries m))"
  by (simp add: entries_def)

section \<open>The sweep\<close>

text \<open>
  A loop that deletes the entries it meets: after walking any list \<open>xs\<close> of entries,
  the map has lost the keys that \<open>xs\<close> pairs with a value passing the test.
\<close>

lemma entries_fold_delete:
  "entries (fold (\<lambda>(k, v) m. if P v then map_delete m k else m) xs m)
     = filter (\<lambda>(k, v). \<not> (\<exists>v'. (k, v') \<in> set xs \<and> P v')) (entries m)"
proof (induction xs arbitrary: m)
  case Nil
  then show ?case by simp
next
  case (Cons x xs)
  obtain k v where x: "x = (k, v)" by (cases x)
  show ?case
    unfolding x by (auto simp: Cons.IH entries_delete intro!: filter_cong)
qed

text \<open>Walking the map's own entries, the keys are distinct: the test decides alone.\<close>

lemma entries_sweep:
  "entries (fold (\<lambda>(k, v) m. if P v then map_delete m k else m) (entries m) m)
     = filter (\<lambda>(k, v). \<not> P v) (entries m)"
proof -
  have "(\<exists>v'. (k, v') \<in> set (entries m) \<and> P v') \<longleftrightarrow> P v" if "(k, v) \<in> set (entries m)" for k v
    using that distinct_entries [of m] by (metis map_of_eq_Some_iff option.inject)
  then show ?thesis
    unfolding entries_fold_delete by (auto intro!: filter_cong)
qed

lemma map_of_filter_value:
  "distinct (map fst xs) \<Longrightarrow>
   map_of (filter (\<lambda>(k, v). \<not> P v) xs) k =
     (case map_of xs k of None \<Rightarrow> None | Some v \<Rightarrow> if P v then None else Some v)"
proof (induction xs)
  case Nil
  then show ?case by simp
next
  case (Cons x xs)
  then show ?case
    by (cases x) (auto split: option.splits simp: map_of_eq_None_iff rev_image_eqI)
qed

lemma map_get_sweep:
  "map_get (fold (\<lambda>(k, v) m. if P v then map_delete m k else m) (entries m) m) k
     = (case map_get m k of None \<Rightarrow> None | Some v \<Rightarrow> if P v then None else Some v)"
  unfolding map_get_entries entries_sweep by (rule map_of_filter_value) (rule distinct_entries)

lemma sessions_cleanup:
  "sessions (cleanup s now)
     = fold (\<lambda>(k, v) m. if exp v \<le> now then map_delete m k else m) (entries (sessions s)) (sessions s)"
  by (simp add: cleanup_def Let_def)

lemma deviceCodes_cleanup:
  "deviceCodes (cleanup s now)
     = fold (\<lambda>(k, v) m. if exp v \<le> now \<or> used v then map_delete m k else m)
         (entries (deviceCodes s)) (deviceCodes s)"
  by (simp add: cleanup_def Let_def)

text \<open>
  C5. One run of the sweep deletes from the sessions map exactly the entries whose expiry
  timestamp is less than or equal to the current time, and from the deviceCodes map
  exactly the entries whose expiry timestamp is less than or equal to the current time
  or whose used flag is true. Every other entry stays, with its value and in its place:
  the entries afterwards are the entries before with the deleted ones filtered out, and
  a lookup of any key finds what it found before unless the entry was deleted.
\<close>

theorem cleanup_exact:
  "entries (sessions (cleanup s now)) = filter (\<lambda>(k, v). \<not> exp v \<le> now) (entries (sessions s))
   \<and> entries (deviceCodes (cleanup s now))
       = filter (\<lambda>(k, v). \<not> (exp v \<le> now \<or> used v)) (entries (deviceCodes s))
   \<and> map_get (sessions (cleanup s now)) t
       = (case map_get (sessions s) t of None \<Rightarrow> None
          | Some v \<Rightarrow> if exp v \<le> now then None else Some v)
   \<and> map_get (deviceCodes (cleanup s now)) c
       = (case map_get (deviceCodes s) c of None \<Rightarrow> None
          | Some v \<Rightarrow> if exp v \<le> now \<or> used v then None else Some v)"
  unfolding sessions_cleanup deviceCodes_cleanup entries_sweep map_get_sweep
  by (intro conjI refl)

section \<open>Device codes\<close>

lemma length_alphabet: "length alphabet = 31"
  by (simp add: alphabet_def)

lemma raw_draws:
  assumes "\<forall>i<n. rnd i < length alphabet"
  shows "concat (map (\<lambda>i. pick (rnd i)) [0..<n]) = map (\<lambda>i. alphabet ! rnd i) [0..<n]"
  using assms by (induction n) (simp_all add: pick_def)

lemma genDeviceCode_12:
  assumes "\<forall>i<12. rnd i < length alphabet"
  shows "genDeviceCode 12 rnd =
           take 4 (map (\<lambda>i. alphabet ! rnd i) [0..<12]) @ ''-'' @
           take 4 (drop 4 (map (\<lambda>i. alphabet ! rnd i) [0..<12])) @ ''-'' @
           drop 8 (map (\<lambda>i. alphabet ! rnd i) [0..<12])"
  unfolding genDeviceCode_def raw_draws [OF assms]
  by (simp add: slice_def slice_from_def Let_def)

text \<open>
  C10. With the default length 12 and every draw inside the alphabet (as
  \<^verbatim>\<open>Math.floor(Math.random() * alphabet.length)\<close> always is), \<open>genDeviceCode\<close> returns a
  string of 14 characters, three groups of four characters with a dash after the first
  and after the second group, at positions 4 and 9. Every character of the groups is one
  of the 31 characters \<open>ABCDEFGHJKMNPQRSTUVWXYZ23456789\<close>, among which there is no 0, 1,
  I, L or O.
\<close>

theorem genDeviceCode_format:
  assumes "\<forall>i<12. rnd i < length alphabet"
  shows "length (genDeviceCode 12 rnd) = 14
       \<and> genDeviceCode 12 rnd ! 4 = CHR ''-''
       \<and> genDeviceCode 12 rnd ! 9 = CHR ''-''
       \<and> (\<exists>a b c. genDeviceCode 12 rnd = a @ ''-'' @ b @ ''-'' @ c
             \<and> length a = 4 \<and> length b = 4 \<and> length c = 4
             \<and> set (a @ b @ c) \<subseteq> set alphabet)
       \<and> alphabet = ''ABCDEFGHJKMNPQRSTUVWXYZ23456789''
       \<and> length alphabet = 31
       \<and> set ''01ILO'' \<inter> set alphabet = {}"
proof -
  let ?raw = "map (\<lambda>i. alphabet ! rnd i) [0..<12]"
  let ?a = "take 4 ?raw" and ?b = "take 4 (drop 4 ?raw)" and ?c = "drop 8 ?raw"
  note eq = genDeviceCode_12 [OF assms]
  have raw: "set ?raw \<subseteq> set alphabet"
    using assms by auto
  have "?a @ ?b @ ?c = ?raw"
    by (metis append_take_drop_id drop_drop numeral_Bit0)
  then have sub: "set (?a @ ?b @ ?c) \<subseteq> set alphabet"
    using raw by simp
  have len: "length ?a = 4" "length ?b = 4" "length ?c = 4"
    by simp_all
  have parts: "\<exists>a b c. genDeviceCode 12 rnd = a @ ''-'' @ b @ ''-'' @ c
             \<and> length a = 4 \<and> length b = 4 \<and> length c = 4
             \<and> set (a @ b @ c) \<subseteq> set alphabet"
    using eq len sub by blast
  have l: "length (genDeviceCode 12 rnd) = 14"
    unfolding eq by simp
  have d4: "genDeviceCode 12 rnd ! 4 = CHR ''-''"
    unfolding eq by (simp add: nth_append)
  have d9: "genDeviceCode 12 rnd ! 9 = CHR ''-''"
    unfolding eq by (simp add: nth_append)
  have al: "set ''01ILO'' \<inter> set alphabet = {}"
    by (simp add: alphabet_def)
  show ?thesis
    using l d4 d9 parts al by (simp add: length_alphabet) (simp add: alphabet_def)
qed

theorem genDeviceCode_format_witness:
  "genDeviceCode 12 (\<lambda>i. i) = ''ABCD-EFGH-JKMN''
   \<and> length (genDeviceCode 12 (\<lambda>i. i)) = 14
   \<and> genDeviceCode 12 (\<lambda>i. i) ! 4 = CHR ''-''
   \<and> genDeviceCode 12 (\<lambda>i. i) ! 9 = CHR ''-''"
proof -
  have h: "\<forall>i<12. (\<lambda>i. i) i < length alphabet"
    by (simp add: length_alphabet)
  have v: "genDeviceCode 12 (\<lambda>i. i) = ''ABCD-EFGH-JKMN''"
    by (simp add: genDeviceCode_def pick_def alphabet_def slice_def slice_from_def upt_rec)
  show ?thesis
    using h v genDeviceCode_format [OF h] by simp
qed

section \<open>The handlers and the store\<close>

lemma map_set_set: "map_set (map_set m k v) k v' = map_set m k v'"
  by (simp add: map_set_def)

lemma get_by_value_Some:
  "get_by_value m v = Some (k, row) \<longleftrightarrow> v = Some (JStr k) \<and> map_get m k = Some row"
  by (induction m v rule: get_by_value.induct) auto

lemma get_by_value_None:
  "get_by_value m v = None \<longleftrightarrow> (\<forall>k. v = Some (JStr k) \<longrightarrow> map_get m k = None)"
  by (induction m v rule: get_by_value.induct) auto

lemma st_reply: "st (reply s cs n kvs) = s"
  by (simp add: reply_def)

lemma st_server_error: "st (server_error s cs) = s"
  by (simp add: server_error_def reply_def)

lemma st_health: "st (health s now) = s"
  by (simp add: health_def st_reply)

lemma st_auth_discord: "st (auth_discord cfg s fetch req_body) = s"
  by (simp add: auth_discord_def Let_def st_reply st_server_error split: option.splits)

lemma st_api_me: "st (api_me s h now fetch) = s"
  by (simp add: api_me_def Let_def st_reply st_server_error split: option.splits)

lemma st_api_guilds: "st (api_guilds s h now fetch) = s"
  by (simp add: api_guilds_def Let_def st_reply st_server_error split: option.splits)

text \<open>A start request leaves the store alone or adds one fresh, unused device code.\<close>

lemma st_device_start:
  "st (device_start s a fetch rnd now) = s
   \<or> (\<exists>r me. bearer a \<noteq> [] \<and> fetch (UsersMe (Some (JStr (bearer a)))) = Some r \<and> ok r
         \<and> parsed r = Some me
         \<and> me \<noteq> JNull
         \<and> st (device_start s a fetch rnd now) =
             s\<lparr>deviceCodes := map_set (deviceCodes s) (genDeviceCode 12 rnd)
                  \<lparr>userId = get_prop me ''id'', discord_access_token = bearer a,
                   exp = now + 10 * (60 * 1000), used = False, oid = allocated s\<rparr>,
               allocated := Suc (allocated s)\<rparr>)"
  by (simp add: device_start_def Let_def st_reply st_server_error split: option.splits)

text \<open>The first part of a claim: when it waits, and what it answers when it does not.\<close>

lemma claim_begin_Inr:
  "claim_begin s req_body now1 = Inr p \<longleftrightarrow>
     (\<exists>c row. field req_body ''device_code'' = Some (JStr c) \<and> c \<noteq> []
        \<and> map_get (deviceCodes s) c = Some row \<and> \<not> used row \<and> \<not> exp row < now1
        \<and> p = \<lparr>p_key = c, p_row = row, p_device_name = field req_body ''device_name''\<rparr>)"
proof (cases "truthy (field req_body ''device_code'')")
  case False
  then show ?thesis by (auto simp: claim_begin_def Let_def)
next
  case t: True
  show ?thesis
  proof (cases "get_by_value (deviceCodes s) (field req_body ''device_code'')")
    case None
    then have "\<forall>c. field req_body ''device_code'' = Some (JStr c) \<longrightarrow> map_get (deviceCodes s) c = None"
      by (simp add: get_by_value_None)
    then have no: "\<not> (\<exists>c row. field req_body ''device_code'' = Some (JStr c) \<and> c \<noteq> []
        \<and> map_get (deviceCodes s) c = Some row \<and> \<not> used row \<and> \<not> exp row < now1
        \<and> p = \<lparr>p_key = c, p_row = row, p_device_name = field req_body ''device_name''\<rparr>)"
      by auto
    have "claim_begin s req_body now1 \<noteq> Inr p"
      using t None by (simp add: claim_begin_def Let_def)
    with no show ?thesis by blast
  next
    case (Some kr)
    obtain k row where kr: "kr = (k, row)" by (cases kr)
    from Some kr have f: "field req_body ''device_code'' = Some (JStr k)"
      and g: "map_get (deviceCodes s) k = Some row"
      by (simp_all add: get_by_value_Some)
    from t f have ne: "k \<noteq> []" by simp
    show ?thesis
      using Some kr f g ne t by (auto simp: claim_begin_def Let_def)
  qed
qed

lemma claim_begin_Inl:
  assumes "claim_begin s req_body now1 = Inl out"
  shows "st out = s \<and> calls out = [] \<and> res_status (resp out) = 400"
  using assms
  by (auto simp: claim_begin_def Let_def reply_def split: if_splits option.splits prod.splits)

lemma map_get_set_used:
  "map_get (set_used m k i) k' =
     (case map_get m k' of
        None \<Rightarrow> None
      | Some r \<Rightarrow> if k' = k \<and> oid r = i then Some (r\<lparr>used := True\<rparr>) else Some r)"
  by (auto simp: set_used_def map_get_set split: option.splits)

lemma set_used_same:
  "map_get m k = Some row \<Longrightarrow> set_used m k (oid row) = map_set m k (row\<lparr>used := True\<rparr>)"
  by (simp add: set_used_def)

text \<open>
  The second part of a claim leaves the store alone, or marks the object it holds as used
  and adds one session made from that object.
\<close>

lemma st_claim_end:
  "st (claim_end s p fetch now2 r1 r2) = s
   \<or> st (claim_end s p fetch now2 r1 r2) =
         s\<lparr>deviceCodes := set_used (deviceCodes s) (p_key p) (oid (p_row p)),
           sessions := map_set (sessions s) (genSessionToken r1 r2)
             \<lparr>userId = userId (p_row p), discord_access_token = discord_access_token (p_row p),
              exp = now2 + 30 * (24 * (60 * (60 * 1000))),
              device_name = js_or_default (p_device_name p) (JStr ''Windows'')\<rparr>\<rparr>"
  by (simp add: claim_end_def Let_def st_reply st_server_error split: option.splits)

text \<open>
  A claim that nothing interrupts leaves the store alone or marks the claimed code as
  used and adds one session made from the claimed entry.
\<close>

lemma st_device_claim:
  "st (device_claim s req_body now1 fetch now2 r1 r2) = s
   \<or> (\<exists>c row. field req_body ''device_code'' = Some (JStr c) \<and> c \<noteq> []
         \<and> map_get (deviceCodes s) c = Some row \<and> \<not> used row \<and> \<not> exp row < now1
         \<and> st (device_claim s req_body now1 fetch now2 r1 r2) =
             s\<lparr>deviceCodes := map_set (deviceCodes s) c (row\<lparr>used := True\<rparr>),
               sessions := map_set (sessions s) (genSessionToken r1 r2)
                 \<lparr>userId = userId row, discord_access_token = discord_access_token row,
                  exp = now2 + 30 * (24 * (60 * (60 * 1000))),
                  device_name = js_or_default (field req_body ''device_name'') (JStr ''Windows'')\<rparr>\<rparr>)"
proof (cases "claim_begin s req_body now1")
  case (Inl out)
  then show ?thesis
    using claim_begin_Inl [OF Inl] by (simp add: device_claim_def)
next
  case (Inr p)
  then obtain c row where f: "field req_body ''device_code'' = Some (JStr c)" "c \<noteq> []"
    "map_get (deviceCodes s) c = Some row" "\<not> used row" "\<not> exp row < now1"
    and p: "p = \<lparr>p_key = c, p_row = row, p_device_name = field req_body ''device_name''\<rparr>"
    unfolding claim_begin_Inr by blast
  show ?thesis
    using st_claim_end [of s p "fetch" now2 r1 r2] f
    by (auto simp: device_claim_def Inr p set_used_same)
qed

text \<open>What one event can do to an entry of the sessions map, and of the deviceCodes map.\<close>

lemma sessions_step:
  assumes "map_get (sessions (step s e)) t = Some v"
  shows "map_get (sessions s) t = Some v
       \<or> (\<exists>req_body now1 fetch now2 r1 r2 c row.
            e = DeviceClaim req_body now1 fetch now2 r1 r2
            \<and> field req_body ''device_code'' = Some (JStr c)
            \<and> map_get (deviceCodes s) c = Some row
            \<and> t = genSessionToken r1 r2
            \<and> v = \<lparr>userId = userId row, discord_access_token = discord_access_token row,
                    exp = now2 + 30 * (24 * (60 * (60 * 1000))),
                    device_name = js_or_default (field req_body ''device_name'') (JStr ''Windows'')\<rparr>)"
proof (cases e)
  case (DeviceClaim req_body now1 fetch now2 r1 r2)
  show ?thesis
    using st_device_claim [of s req_body now1 fetch now2 r1 r2] assms
    unfolding DeviceClaim step.simps
    by (auto simp: map_get_set split: if_splits)
next
  case (DeviceStart a fetch rnd now)
  show ?thesis
    using st_device_start [of s a fetch rnd now] assms
    unfolding DeviceStart step.simps by auto
next
  case (Cleanup now)
  show ?thesis
    using assms unfolding Cleanup step.simps
    by (simp add: sessions_cleanup map_get_sweep split: option.splits if_splits)
qed (use assms in \<open>simp_all add: st_health st_auth_discord st_api_me st_api_guilds\<close>)

lemma deviceCodes_step:
  assumes "map_get (deviceCodes (step s e)) c = Some v"
  shows "map_get (deviceCodes s) c = Some v
       \<or> (\<exists>req_body now1 fetch now2 r1 r2 row.
            e = DeviceClaim req_body now1 fetch now2 r1 r2
            \<and> field req_body ''device_code'' = Some (JStr c)
            \<and> map_get (deviceCodes s) c = Some row \<and> v = row\<lparr>used := True\<rparr>)
       \<or> (\<exists>authorization fetch rnd now r me.
            e = DeviceStart authorization fetch rnd now
            \<and> c = genDeviceCode 12 rnd
            \<and> bearer authorization \<noteq> []
            \<and> fetch (UsersMe (Some (JStr (bearer authorization)))) = Some r \<and> ok r
            \<and> parsed r = Some me \<and> me \<noteq> JNull
            \<and> v = \<lparr>userId = get_prop me ''id'', discord_access_token = bearer authorization,
                    exp = now + 10 * (60 * 1000), used = False, oid = allocated s\<rparr>)"
proof (cases e)
  case (DeviceClaim req_body now1 fetch now2 r1 r2)
  show ?thesis
    using st_device_claim [of s req_body now1 fetch now2 r1 r2] assms
    unfolding DeviceClaim step.simps
    by (auto simp: map_get_set split: if_splits)
next
  case (DeviceStart a fetch rnd now)
  show ?thesis
    using st_device_start [of s a fetch rnd now] assms
    unfolding DeviceStart step.simps
    by (auto simp: map_get_set split: if_splits)
next
  case (Cleanup now)
  show ?thesis
    using assms unfolding Cleanup step.simps
    by (simp add: deviceCodes_cleanup map_get_sweep split: option.splits if_splits)
qed (use assms in \<open>simp_all add: st_health st_auth_discord st_api_me st_api_guilds\<close>)

section \<open>Reachable stores\<close>

lemma genDeviceCode_nonempty: "genDeviceCode len rnd \<noteq> []"
  by (simp add: genDeviceCode_def Let_def)

lemma genSessionToken_nonempty: "genSessionToken r1 r2 \<noteq> []"
  by (simp add: genSessionToken_def)

text \<open>
  In every store the server can reach, no key is the empty string and no entry holds an
  empty provider token: a code always contains its two dashes, a session token starts
  with \<open>sess_\<close>, and a code is only issued to a caller whose bearer token is not empty.
\<close>

lemma reachable_nonempty:
  "reachable s \<Longrightarrow>
     (\<forall>t v. map_get (sessions s) t = Some v \<longrightarrow> t \<noteq> [] \<and> discord_access_token v \<noteq> [])
     \<and> (\<forall>c row. map_get (deviceCodes s) c = Some row \<longrightarrow> c \<noteq> [] \<and> discord_access_token row \<noteq> [])"
proof (induction rule: reachable.induct)
  case reachable_init
  show ?case by (simp add: init_def map_get_empty)
next
  case (reachable_step s e)
  have "t \<noteq> [] \<and> discord_access_token v \<noteq> []"
    if "map_get (sessions (step s e)) t = Some v" for t v
    using sessions_step [OF that] reachable_step.IH
    by (auto simp: genSessionToken_nonempty)
  moreover have "c \<noteq> [] \<and> discord_access_token row \<noteq> []"
    if "map_get (deviceCodes (step s e)) c = Some row" for c row
    using deviceCodes_step [OF that] reachable_step.IH
    by (auto simp: genDeviceCode_nonempty)
  ultimately show ?case by blast
qed

lemma reachable_session_key: "reachable s \<Longrightarrow> map_get (sessions s) t = Some v \<Longrightarrow> t \<noteq> []"
  using reachable_nonempty by blast

lemma reachable_session_token:
  "reachable s \<Longrightarrow> map_get (sessions s) t = Some v \<Longrightarrow> discord_access_token v \<noteq> []"
  using reachable_nonempty by blast


section \<open>The example stores\<close>

lemmas claim_defs = device_claim_def claim_begin_def claim_end_def set_used_def

lemma code_of_draws: "genDeviceCode 12 (\<lambda>i. i) = ''ABCD-EFGH-JKMN''"
  by (simp add: genDeviceCode_def pick_def alphabet_def slice_def slice_from_def upt_rec)

lemma started_eq:
  "started = \<lparr>deviceCodes = map_set DAList.empty ''ABCD-EFGH-JKMN''
       \<lparr>userId = None, discord_access_token = ''tok'', exp = 600000, used = False, oid = 0\<rparr>,
     sessions = DAList.empty, allocated = 1\<rparr>"
  by (simp add: started_def device_start_def bearer_def startsWith_def slice_from_def
      accept_def ok_def reply_def init_def code_of_draws Let_def)


lemma field_claim_body:
  "field claim_body ''device_code'' = Some (JStr ''ABCD-EFGH-JKMN'')"
  "field claim_body ''device_name'' = None"
  by (simp_all add: field_def claim_body_def js_or_def)

lemma claimed_eq:
  "claimed = \<lparr>deviceCodes = map_set DAList.empty ''ABCD-EFGH-JKMN''
       \<lparr>userId = None, discord_access_token = ''tok'', exp = 600000, used = True, oid = 0\<rparr>,
     sessions = map_set DAList.empty ''sess_ab''
       \<lparr>userId = None, discord_access_token = ''tok'', exp = 2592001001,
        device_name = JStr ''Windows''\<rparr>,
     allocated = 1\<rparr>"
  by (simp add: claimed_def claim_defs field_claim_body started_eq map_get_set
      accept_def ok_def reply_def genSessionToken_def js_or_default_def Let_def map_set_set)

lemma step_started: "step init (DeviceStart (Some ''Bearer tok'') accept (\<lambda>i. i) 0) = started"
  by (simp add: started_def)

lemma step_issued: "step init (DeviceStart (Some ''Bearer tok'') known (\<lambda>i. i) 0) = issued"
  by (simp add: issued_def)

lemma step_claimed: "step started (DeviceClaim claim_body 1000 accept 1001 ''a'' ''b'') = claimed"
  by (simp add: claimed_def)

lemma reachable_started: "reachable started"
  unfolding started_def by (intro reachable.intros)

lemma reachable_claimed: "reachable claimed"
  unfolding claimed_def by (intro reachable.intros reachable_started)

lemma claimed_code:
  "map_get (deviceCodes claimed) ''ABCD-EFGH-JKMN''
     = Some \<lparr>userId = None, discord_access_token = ''tok'', exp = 600000, used = True, oid = 0\<rparr>"
  by (simp add: claimed_eq map_get_set)

lemma claimed_session:
  "map_get (sessions claimed) ''sess_ab''
     = Some \<lparr>userId = None, discord_access_token = ''tok'', exp = 2592001001,
             device_name = JStr ''Windows''\<rparr>"
  by (simp add: claimed_eq map_get_set)

lemma started_code:
  "map_get (deviceCodes started) ''ABCD-EFGH-JKMN''
     = Some \<lparr>userId = None, discord_access_token = ''tok'', exp = 600000, used = False, oid = 0\<rparr>"
  by (simp add: started_eq map_get_set)


lemma claim_started_ok:
  "res_status (resp (device_claim started claim_body 1000 accept 1001 ''a'' ''b'')) = 200"
  by (simp add: claim_defs field_claim_body started_eq map_get_set accept_def ok_def
      reply_def Let_def)

section \<open>Rejected claims\<close>

text \<open>
  C1, amended. For every \<^verbatim>\<open>POST /api/device/claim\<close> request: if the device_code is
  missing or falsy (absent, null, false, 0 or the empty string), the answer is 400
  \<open>missing_code\<close>, whatever the maps hold; if the device_code is truthy and not a key
  of the deviceCodes map, the answer is 400 \<open>invalid_code\<close>; if it is truthy and the
  stored entry's used flag is true, the answer is 400 \<open>already_used\<close>, whether or not
  the entry has expired; if it is truthy and the stored entry is unused with its expiry
  timestamp in the past, the answer is 400 \<open>expired\<close>. In each of these cases the
  store is unchanged, so no session is created, and the provider is not called.
\<close>

theorem claim_rejections:
  "(\<not> truthy (field req_body ''device_code'') \<longrightarrow>
      device_claim s req_body now1 fetch now2 r1 r2 =
        \<lparr>resp = \<lparr>res_status = 400, res_body = Json (JObj [(''error'', JStr ''missing_code'')])\<rparr>,
         st = s, calls = []\<rparr>)
   \<and> (truthy (field req_body ''device_code'')
        \<and> (\<forall>c. field req_body ''device_code'' = Some (JStr c) \<longrightarrow> map_get (deviceCodes s) c = None) \<longrightarrow>
      device_claim s req_body now1 fetch now2 r1 r2 =
        \<lparr>resp = \<lparr>res_status = 400, res_body = Json (JObj [(''error'', JStr ''invalid_code'')])\<rparr>,
         st = s, calls = []\<rparr>)
   \<and> (\<forall>c row. truthy (field req_body ''device_code'')
        \<and> field req_body ''device_code'' = Some (JStr c) \<and> map_get (deviceCodes s) c = Some row
        \<and> used row \<longrightarrow>
      device_claim s req_body now1 fetch now2 r1 r2 =
        \<lparr>resp = \<lparr>res_status = 400, res_body = Json (JObj [(''error'', JStr ''already_used'')])\<rparr>,
         st = s, calls = []\<rparr>)
   \<and> (\<forall>c row. truthy (field req_body ''device_code'')
        \<and> field req_body ''device_code'' = Some (JStr c) \<and> map_get (deviceCodes s) c = Some row
        \<and> \<not> used row \<and> exp row < now1 \<longrightarrow>
      device_claim s req_body now1 fetch now2 r1 r2 =
        \<lparr>resp = \<lparr>res_status = 400, res_body = Json (JObj [(''error'', JStr ''expired'')])\<rparr>,
         st = s, calls = []\<rparr>)"
proof (intro conjI allI impI)
  assume "\<not> truthy (field req_body ''device_code'')"
  then show "device_claim s req_body now1 fetch now2 r1 r2 =
      \<lparr>resp = \<lparr>res_status = 400, res_body = Json (JObj [(''error'', JStr ''missing_code'')])\<rparr>,
       st = s, calls = []\<rparr>"
    by (simp add: claim_defs Let_def reply_def error_def)
next
  assume a: "truthy (field req_body ''device_code'')
      \<and> (\<forall>c. field req_body ''device_code'' = Some (JStr c) \<longrightarrow> map_get (deviceCodes s) c = None)"
  then have "get_by_value (deviceCodes s) (field req_body ''device_code'') = None"
    by (simp add: get_by_value_None)
  with a show "device_claim s req_body now1 fetch now2 r1 r2 =
      \<lparr>resp = \<lparr>res_status = 400, res_body = Json (JObj [(''error'', JStr ''invalid_code'')])\<rparr>,
       st = s, calls = []\<rparr>"
    by (simp add: claim_defs Let_def reply_def error_def)
next
  fix c row
  assume "truthy (field req_body ''device_code'')
      \<and> field req_body ''device_code'' = Some (JStr c) \<and> map_get (deviceCodes s) c = Some row
      \<and> used row"
  then show "device_claim s req_body now1 fetch now2 r1 r2 =
      \<lparr>resp = \<lparr>res_status = 400, res_body = Json (JObj [(''error'', JStr ''already_used'')])\<rparr>,
       st = s, calls = []\<rparr>"
    by (auto simp: claim_defs Let_def reply_def error_def)
next
  fix c row
  assume "truthy (field req_body ''device_code'')
      \<and> field req_body ''device_code'' = Some (JStr c) \<and> map_get (deviceCodes s) c = Some row
      \<and> \<not> used row \<and> exp row < now1"
  then show "device_claim s req_body now1 fetch now2 r1 r2 =
      \<lparr>resp = \<lparr>res_status = 400, res_body = Json (JObj [(''error'', JStr ''expired'')])\<rparr>,
       st = s, calls = []\<rparr>"
    by (auto simp: claim_defs Let_def reply_def error_def)
qed

text \<open>
  An empty code, an unknown code, a used code and an expired code, each claimed from a
  store the server reaches.
\<close>

theorem claim_rejections_witness:
  "device_claim started empty_body 5 accept 6 ''a'' ''b'' =
        \<lparr>resp = \<lparr>res_status = 400, res_body = Json (JObj [(''error'', JStr ''missing_code'')])\<rparr>,
         st = started, calls = []\<rparr>
   \<and> device_claim started unknown_body 5 accept 6 ''a'' ''b'' =
        \<lparr>resp = \<lparr>res_status = 400, res_body = Json (JObj [(''error'', JStr ''invalid_code'')])\<rparr>,
         st = started, calls = []\<rparr>
   \<and> device_claim claimed claim_body 5 accept 6 ''a'' ''b'' =
        \<lparr>resp = \<lparr>res_status = 400, res_body = Json (JObj [(''error'', JStr ''already_used'')])\<rparr>,
         st = claimed, calls = []\<rparr>
   \<and> device_claim started claim_body 700000 accept 700001 ''a'' ''b'' =
        \<lparr>resp = \<lparr>res_status = 400, res_body = Json (JObj [(''error'', JStr ''expired'')])\<rparr>,
         st = started, calls = []\<rparr>"
proof -
  have e: "field empty_body ''device_code'' = Some (JStr [])"
    and u: "field unknown_body ''device_code'' = Some (JStr ''ZZZZ-ZZZZ-ZZZZ'')"
    by (simp_all add: field_def empty_body_def unknown_body_def js_or_def)
  have 0: "device_claim started empty_body 5 accept 6 ''a'' ''b'' =
        \<lparr>resp = \<lparr>res_status = 400, res_body = Json (JObj [(''error'', JStr ''missing_code'')])\<rparr>,
         st = started, calls = []\<rparr>"
    using claim_rejections [where req_body = empty_body and s = started and ?now1.0 = 5
        and fetch = accept and ?now2.0 = 6 and ?r1.0 = "''a''" and ?r2.0 = "''b''", THEN conjunct1]
    by (simp add: e)
  have 1: "device_claim started unknown_body 5 accept 6 ''a'' ''b'' =
        \<lparr>resp = \<lparr>res_status = 400, res_body = Json (JObj [(''error'', JStr ''invalid_code'')])\<rparr>,
         st = started, calls = []\<rparr>"
    using claim_rejections [where req_body = unknown_body and s = started and ?now1.0 = 5
        and fetch = accept and ?now2.0 = 6 and ?r1.0 = "''a''" and ?r2.0 = "''b''",
        THEN conjunct2, THEN conjunct1]
    by (simp add: u started_eq map_get_set map_get_empty)
  have 2: "device_claim claimed claim_body 5 accept 6 ''a'' ''b'' =
        \<lparr>resp = \<lparr>res_status = 400, res_body = Json (JObj [(''error'', JStr ''already_used'')])\<rparr>,
         st = claimed, calls = []\<rparr>"
    using claim_rejections [where req_body = claim_body and s = claimed and ?now1.0 = 5
        and fetch = accept and ?now2.0 = 6 and ?r1.0 = "''a''" and ?r2.0 = "''b''",
        THEN conjunct2, THEN conjunct2, THEN conjunct1]
    by (simp add: field_claim_body claimed_code)
  have 3: "device_claim started claim_body 700000 accept 700001 ''a'' ''b'' =
        \<lparr>resp = \<lparr>res_status = 400, res_body = Json (JObj [(''error'', JStr ''expired'')])\<rparr>,
         st = started, calls = []\<rparr>"
    using claim_rejections [where req_body = claim_body and s = started and ?now1.0 = 700000
        and fetch = accept and ?now2.0 = 700001 and ?r1.0 = "''a''" and ?r2.0 = "''b''",
        THEN conjunct2, THEN conjunct2, THEN conjunct2]
    by (simp add: field_claim_body started_code)
  show ?thesis using 0 1 2 3 by (intro conjI)
qed

text \<open>
  C1 as stated fails in two places. An entry that is both used and expired: the code
  issued at time 0 expires at 600000 and was claimed at time 1000; a claim at time
  700000 finds the expiry in the past and is answered \<open>already_used\<close>, not \<open>expired\<close>.
  A device_code that is supplied as the empty string: it is not a key of the deviceCodes
  map, and the claim is answered \<open>missing_code\<close>, not \<open>invalid_code\<close>.
\<close>

theorem claim_rejections_counterexample:
  "map_option used (map_get (deviceCodes claimed) ''ABCD-EFGH-JKMN'') = Some True
   \<and> map_option exp (map_get (deviceCodes claimed) ''ABCD-EFGH-JKMN'') = Some 600000
   \<and> (600000 :: int) < 700000
   \<and> resp (device_claim claimed claim_body 700000 accept 700001 ''c'' ''d'') =
        \<lparr>res_status = 400, res_body = Json (JObj [(''error'', JStr ''already_used'')])\<rparr>
   \<and> resp (device_claim claimed claim_body 700000 accept 700001 ''c'' ''d'') \<noteq>
        \<lparr>res_status = 400, res_body = Json (JObj [(''error'', JStr ''expired'')])\<rparr>
   \<and> field empty_body ''device_code'' = Some (JStr [])
   \<and> map_get (deviceCodes started) [] = None
   \<and> resp (device_claim started empty_body 5 accept 6 ''a'' ''b'') =
        \<lparr>res_status = 400, res_body = Json (JObj [(''error'', JStr ''missing_code'')])\<rparr>
   \<and> resp (device_claim started empty_body 5 accept 6 ''a'' ''b'') \<noteq>
        \<lparr>res_status = 400, res_body = Json (JObj [(''error'', JStr ''invalid_code'')])\<rparr>"
proof -
  have e: "field empty_body ''device_code'' = Some (JStr [])"
    by (simp add: field_def empty_body_def js_or_def)
  have 1: "resp (device_claim claimed claim_body 700000 accept 700001 ''c'' ''d'') =
        \<lparr>res_status = 400, res_body = Json (JObj [(''error'', JStr ''already_used'')])\<rparr>"
    by (simp add: claim_defs field_claim_body claimed_code Let_def reply_def error_def)
  have 2: "resp (device_claim started empty_body 5 accept 6 ''a'' ''b'') =
        \<lparr>res_status = 400, res_body = Json (JObj [(''error'', JStr ''missing_code'')])\<rparr>"
    by (simp add: claim_defs e Let_def reply_def error_def)
  have 3: "map_get (deviceCodes started) [] = None"
    by (simp add: started_eq map_get_set map_get_empty)
  show ?thesis
    using e 1 2 3 by (simp add: claimed_code)
qed

section \<open>Resolving tokens\<close>

lemma bearer_Bearer: "bearer (Some (''Bearer '' @ t)) = t"
  by (simp add: bearer_def startsWith_def slice_from_def)

lemma bearer_None: "bearer None = []"
  by (simp add: bearer_def startsWith_def)

lemma bearer_other: "\<not> startsWith a ''Bearer '' \<Longrightarrow> bearer (Some a) = []"
  by (simp add: bearer_def)

lemma resolve_eq:
  "resolveDiscordTokenFromAuthHeader s now h =
     (if bearer h = [] then None
      else case map_get (sessions s) (bearer h) of
             None \<Rightarrow> Some (bearer h)
           | Some sess \<Rightarrow> if now < exp sess then Some (discord_access_token sess) else Some (bearer h))"
  by (simp add: resolveDiscordTokenFromAuthHeader_def Let_def split: option.splits)

lemma resolve_Bearer:
  "resolveDiscordTokenFromAuthHeader s now (Some (''Bearer '' @ t)) =
     (if t = [] then None
      else case map_get (sessions s) t of
             None \<Rightarrow> Some t
           | Some sess \<Rightarrow> if now < exp sess then Some (discord_access_token sess) else Some t)"
  unfolding resolve_eq bearer_Bearer by (rule refl)

lemma reachable_resolve:
  "reachable s \<Longrightarrow> resolveDiscordTokenFromAuthHeader s now h = Some tok \<Longrightarrow> tok \<noteq> []"
  by (auto simp: resolve_eq split: if_splits option.splits dest: reachable_session_token)

lemma trimmed_Bearer: "trimmed (''Bearer '' @ t) \<Longrightarrow> t \<noteq> []"
  by (auto simp: trimmed_def)

text \<open>
  C2. For every Authorization header of the form \<open>Bearer t\<close>: the header comes from
  \<^verbatim>\<open>req.headers.authorization\<close>, where it ends with no blank, so \<open>t\<close> is not empty. If
  \<open>t\<close> is a key of the sessions map and that session's expiry timestamp is strictly
  greater than the current time, \<open>resolveDiscordTokenFromAuthHeader\<close> returns the
  session's stored provider access token; otherwise it returns \<open>t\<close> itself. For a
  header that is missing or does not start with \<open>Bearer \<close> it returns null, and then
  \<^verbatim>\<open>/api/me\<close> and \<^verbatim>\<open>/api/discord/guilds\<close> answer 401 without calling the provider.
  (The same holds for the bare value \<open>Bearer \<close> with its blank, which no request can
  carry.)
\<close>

theorem resolve_cases:
  "(trimmed (''Bearer '' @ t) \<longrightarrow> t \<noteq> [])
   \<and> (t \<noteq> [] \<and> map_get (sessions s) t = Some sess \<and> exp sess > now \<longrightarrow>
      resolveDiscordTokenFromAuthHeader s now (Some (''Bearer '' @ t)) = Some (discord_access_token sess))
   \<and> (t \<noteq> [] \<and> \<not> (\<exists>sess. map_get (sessions s) t = Some sess \<and> exp sess > now) \<longrightarrow>
      resolveDiscordTokenFromAuthHeader s now (Some (''Bearer '' @ t)) = Some t)
   \<and> (h = None \<or> (\<exists>a. h = Some a \<and> \<not> startsWith a ''Bearer '') \<or> h = Some ''Bearer '' \<longrightarrow>
      resolveDiscordTokenFromAuthHeader s now h = None
      \<and> api_me s h now fetch =
          \<lparr>resp = \<lparr>res_status = 401, res_body = Json (JObj [(''error'', JStr ''missing_token'')])\<rparr>,
           st = s, calls = []\<rparr>
      \<and> api_guilds s h now fetch =
          \<lparr>resp = \<lparr>res_status = 401, res_body = Json (JObj [(''error'', JStr ''missing_bearer_token'')])\<rparr>,
           st = s, calls = []\<rparr>)"
proof (intro conjI impI)
  assume "trimmed (''Bearer '' @ t)"
  then show "t \<noteq> []" by (rule trimmed_Bearer)
next
  assume "t \<noteq> [] \<and> map_get (sessions s) t = Some sess \<and> exp sess > now"
  then show "resolveDiscordTokenFromAuthHeader s now (Some (''Bearer '' @ t)) = Some (discord_access_token sess)"
    unfolding resolve_Bearer by simp
next
  assume "t \<noteq> [] \<and> \<not> (\<exists>sess. map_get (sessions s) t = Some sess \<and> exp sess > now)"
  then show "resolveDiscordTokenFromAuthHeader s now (Some (''Bearer '' @ t)) = Some t"
    unfolding resolve_Bearer by (auto split: option.splits)
next
  assume h: "h = None \<or> (\<exists>a. h = Some a \<and> \<not> startsWith a ''Bearer '') \<or> h = Some ''Bearer ''"
  have "bearer (Some ''Bearer '') = []"
    using bearer_Bearer [of "[]"] by simp
  then have b: "bearer h = []"
    using h by (auto simp: bearer_None bearer_other)
  then show r: "resolveDiscordTokenFromAuthHeader s now h = None"
    by (simp add: resolve_eq)
  show "api_me s h now fetch =
          \<lparr>resp = \<lparr>res_status = 401, res_body = Json (JObj [(''error'', JStr ''missing_token'')])\<rparr>,
           st = s, calls = []\<rparr>"
    by (simp add: api_me_def r reply_def error_def)
  show "api_guilds s h now fetch =
          \<lparr>resp = \<lparr>res_status = 401, res_body = Json (JObj [(''error'', JStr ''missing_bearer_token'')])\<rparr>,
           st = s, calls = []\<rparr>"
    by (simp add: api_guilds_def r reply_def error_def)
qed

text \<open>
  A live session token, a token that is no session, a header of another scheme and a
  missing header, at time 7000 in the store \<open>claimed\<close>; the first header is trimmed.
\<close>

theorem resolve_cases_witness:
  "trimmed (''Bearer '' @ ''sess_ab'')
   \<and> resolveDiscordTokenFromAuthHeader claimed 7000 (Some (''Bearer '' @ ''sess_ab'')) = Some ''tok''
   \<and> resolveDiscordTokenFromAuthHeader claimed 7000 (Some (''Bearer '' @ ''xyz'')) = Some ''xyz''
   \<and> resolveDiscordTokenFromAuthHeader claimed 7000 (Some ''Basic xyz'') = None
   \<and> api_me claimed None 7000 accept =
        \<lparr>resp = \<lparr>res_status = 401, res_body = Json (JObj [(''error'', JStr ''missing_token'')])\<rparr>,
         st = claimed, calls = []\<rparr>
   \<and> api_guilds claimed None 7000 accept =
        \<lparr>resp = \<lparr>res_status = 401, res_body = Json (JObj [(''error'', JStr ''missing_bearer_token'')])\<rparr>,
         st = claimed, calls = []\<rparr>"
proof -
  have x: "map_get (sessions claimed) ''xyz'' = None"
    by (simp add: claimed_eq map_get_set map_get_empty)
  have 1: "resolveDiscordTokenFromAuthHeader claimed 7000 (Some (''Bearer '' @ ''sess_ab'')) = Some ''tok''"
    using resolve_cases [where t = "''sess_ab''" and s = claimed and now = 7000
        and sess = "\<lparr>userId = None, discord_access_token = ''tok'', exp = 2592001001,
                     device_name = JStr ''Windows''\<rparr>", THEN conjunct2, THEN conjunct1]
      claimed_session
    by simp
  have 2: "resolveDiscordTokenFromAuthHeader claimed 7000 (Some (''Bearer '' @ ''xyz'')) = Some ''xyz''"
    using resolve_cases [where t = "''xyz''" and s = claimed and now = 7000,
        THEN conjunct2, THEN conjunct2, THEN conjunct1] x
    by simp
  have 3: "resolveDiscordTokenFromAuthHeader claimed 7000 (Some ''Basic xyz'') = None"
    using resolve_cases [where s = claimed and now = 7000 and h = "Some ''Basic xyz''",
        THEN conjunct2, THEN conjunct2, THEN conjunct2]
    by (simp add: startsWith_def)
  have 4: "api_me claimed None 7000 accept =
        \<lparr>resp = \<lparr>res_status = 401, res_body = Json (JObj [(''error'', JStr ''missing_token'')])\<rparr>,
         st = claimed, calls = []\<rparr>"
    using resolve_cases [where s = claimed and now = 7000 and h = None and fetch = accept,
        THEN conjunct2, THEN conjunct2, THEN conjunct2]
    by simp
  have 5: "api_guilds claimed None 7000 accept =
        \<lparr>resp = \<lparr>res_status = 401, res_body = Json (JObj [(''error'', JStr ''missing_bearer_token'')])\<rparr>,
         st = claimed, calls = []\<rparr>"
    using resolve_cases [where s = claimed and now = 7000 and h = None and fetch = accept,
        THEN conjunct2, THEN conjunct2, THEN conjunct2]
    by simp
  have 0: "trimmed (''Bearer '' @ ''sess_ab'')"
    by (simp add: trimmed_def)
  show ?thesis using 0 1 2 3 4 5 by (intro conjI)
qed

text \<open>
  Called with the bare value \<open>Bearer \<close>, which is not trimmed, the function finds an
  empty token and returns null.
\<close>

lemma resolve_bare_Bearer:
  "\<not> trimmed ''Bearer ''
   \<and> resolveDiscordTokenFromAuthHeader s now (Some ''Bearer '') = None"
  by (simp add: trimmed_def resolve_eq bearer_def startsWith_def slice_from_def)

text \<open>
  C9. An expired session token is not rejected. In every store the server reaches, for
  a Bearer token \<open>t\<close> that is a key of the sessions map with an expiry timestamp less
  than or equal to the current time, \<open>resolveDiscordTokenFromAuthHeader\<close> returns \<open>t\<close>
  itself; \<^verbatim>\<open>/api/me\<close> and \<^verbatim>\<open>/api/discord/guilds\<close> then make exactly one provider call,
  carrying \<open>t\<close> and not the stored provider token, and answer with what the provider
  makes of it instead of their own 401 for a missing token.
\<close>

theorem expired_session_passthrough:
  assumes "reachable s" and "map_get (sessions s) t = Some sess" and "exp sess \<le> now"
  shows "resolveDiscordTokenFromAuthHeader s now (Some (''Bearer '' @ t)) = Some t
       \<and> calls (api_me s (Some (''Bearer '' @ t)) now fetch) = [UsersMe (Some (JStr t))]
       \<and> calls (api_guilds s (Some (''Bearer '' @ t)) now fetch) = [UsersMeGuilds (Some (JStr t))]
       \<and> resp (api_me s (Some (''Bearer '' @ t)) now fetch) =
           (case fetch (UsersMe (Some (JStr t))) of
              None \<Rightarrow> \<lparr>res_status = 500, res_body = Json (JObj [(''error'', JStr ''server_error'')])\<rparr>
            | Some r \<Rightarrow>
                if ok r then \<lparr>res_status = 200, res_body = Send (text_of r)\<rparr>
                else \<lparr>res_status = status r,
                      res_body = Json (JObj [(''error'', JStr ''discord_error''), (''body'', JStr (text_of r))])\<rparr>)
       \<and> resp (api_guilds s (Some (''Bearer '' @ t)) now fetch) =
           (case fetch (UsersMeGuilds (Some (JStr t))) of
              None \<Rightarrow> \<lparr>res_status = 500, res_body = Json (JObj [(''error'', JStr ''server_error'')])\<rparr>
            | Some r \<Rightarrow>
                if ok r then \<lparr>res_status = 200, res_body = Send (text_of r)\<rparr>
                else \<lparr>res_status = status r,
                      res_body = Json (JObj [(''error'', JStr ''discord_error''), (''body'', JStr (text_of r))])\<rparr>)"
proof -
  have ne: "t \<noteq> []"
    using assms(1,2) by (rule reachable_session_key)
  have r: "resolveDiscordTokenFromAuthHeader s now (Some (''Bearer '' @ t)) = Some t"
    unfolding resolve_Bearer using ne assms(2,3) by simp
  show ?thesis
    unfolding api_me_def api_guilds_def r using ne
    by (simp add: Let_def reply_def server_error_def error_def split: option.splits)
qed

text \<open>The session of \<open>claimed\<close> expires at 2592001001; the requests come at 3000000000.\<close>

theorem expired_session_passthrough_witness:
  "resolveDiscordTokenFromAuthHeader claimed 3000000000 (Some ''Bearer sess_ab'') = Some ''sess_ab''
   \<and> calls (api_me claimed (Some ''Bearer sess_ab'') 3000000000 refuse) = [UsersMe (Some (JStr ''sess_ab''))]
   \<and> calls (api_guilds claimed (Some ''Bearer sess_ab'') 3000000000 refuse)
       = [UsersMeGuilds (Some (JStr ''sess_ab''))]
   \<and> resp (api_me claimed (Some ''Bearer sess_ab'') 3000000000 accept)
       = \<lparr>res_status = 200, res_body = Send ''{}''\<rparr>"
proof -
  have 2: "exp \<lparr>userId = None, discord_access_token = ''tok'', exp = 2592001001,
             device_name = JStr ''Windows''\<rparr> \<le> (3000000000 :: int)"
    by simp
  note w = expired_session_passthrough [OF reachable_claimed claimed_session 2]
  show ?thesis
    using w [of refuse] w [of accept] by (simp add: accept_def ok_def)
qed

section \<open>Sessions\<close>

lemma session_kept:
  assumes "map_get (sessions s) t = Some sess" and "keeps t (exp sess) e"
  shows "map_get (sessions (step s e)) t = Some sess"
proof (cases e)
  case (DeviceClaim req_body now1 fetch now2 r1 r2)
  show ?thesis
    using st_device_claim [of s req_body now1 fetch now2 r1 r2] assms
    unfolding DeviceClaim step.simps
    by (auto simp: map_get_set)
next
  case (DeviceStart a fetch rnd now)
  show ?thesis
    using st_device_start [of s a fetch rnd now] assms
    unfolding DeviceStart step.simps by auto
next
  case (Cleanup now)
  show ?thesis
    using assms unfolding Cleanup step.simps
    by (simp add: sessions_cleanup map_get_sweep)
qed (use assms in \<open>simp_all add: st_health st_auth_discord st_api_me st_api_guilds\<close>)

lemma session_kept_foldl:
  "map_get (sessions s) t = Some sess \<Longrightarrow> \<forall>e\<in>set evs. keeps t (exp sess) e \<Longrightarrow>
   map_get (sessions (foldl step s evs)) t = Some sess"
  by (induction evs arbitrary: s) (simp_all add: session_kept)

text \<open>
  C4. Sessions are reusable until expiry. A \<^verbatim>\<open>GET /api/me\<close> or
  \<^verbatim>\<open>GET /api/discord/guilds\<close> request leaves the whole store as it was, whatever the
  header, the time and the provider's answer: the session entry is neither marked, nor
  changed, nor deleted. So in every store the server reaches, a session token \<open>t\<close> with
  entry \<open>sess\<close> still has that entry after any sequence of events that \<open>keeps\<close> it
  (every \<^verbatim>\<open>/api/me\<close> and \<^verbatim>\<open>/api/discord/guilds\<close> request does, and so does every
  other event except a claim that generates the same token again and a sweep at or after
  the expiry), and at every time before the expiry \<open>t\<close> resolves to the entry's
  provider access token.
\<close>

theorem sessions_reusable:
  assumes "reachable s" and "map_get (sessions s) t = Some sess" and "now < exp sess"
    and "\<forall>e\<in>set evs. keeps t (exp sess) e"
  shows "st (api_me s authorization now' fetch) = s
       \<and> st (api_guilds s authorization now' fetch) = s
       \<and> map_get (sessions (foldl step s evs)) t = Some sess
       \<and> resolveDiscordTokenFromAuthHeader (foldl step s evs) now (Some (''Bearer '' @ t))
           = Some (discord_access_token sess)"
proof -
  have ne: "t \<noteq> []"
    using assms(1,2) by (rule reachable_session_key)
  have kept: "map_get (sessions (foldl step s evs)) t = Some sess"
    using assms(2,4) by (rule session_kept_foldl)
  have "resolveDiscordTokenFromAuthHeader (foldl step s evs) now (Some (''Bearer '' @ t))
      = Some (discord_access_token sess)"
    unfolding resolve_Bearer using ne kept assms(3) by simp
  then show ?thesis
    by (simp add: kept st_api_me st_api_guilds)
qed

theorem sessions_reusable_witness:
  "st (api_me claimed (Some ''Bearer sess_ab'') 5000 refuse) = claimed
   \<and> st (api_guilds claimed (Some ''Bearer sess_ab'') 5000 refuse) = claimed
   \<and> resolveDiscordTokenFromAuthHeader
        (foldl step claimed
           [Me (Some ''Bearer sess_ab'') 5000 accept, Cleanup 6000, Guilds (Some ''Bearer sess_ab'') 6500 refuse])
        7000 (Some (''Bearer '' @ ''sess_ab'')) = Some ''tok''"
proof -
  have 2: "(7000 :: int) < exp \<lparr>userId = None, discord_access_token = ''tok'', exp = 2592001001,
             device_name = JStr ''Windows''\<rparr>"
    by simp
  have 3: "\<forall>e\<in>set [Me (Some ''Bearer sess_ab'') 5000 accept, Cleanup 6000,
             Guilds (Some ''Bearer sess_ab'') 6500 refuse].
           keeps ''sess_ab'' (exp \<lparr>userId = None, discord_access_token = ''tok'', exp = 2592001001,
             device_name = JStr ''Windows''\<rparr>) e"
    by simp
  note w = sessions_reusable [OF reachable_claimed claimed_session 2 3, of "Some ''Bearer sess_ab''" 5000 refuse]
  have a: "st (api_me claimed (Some ''Bearer sess_ab'') 5000 refuse) = claimed"
    using w by blast
  have b: "st (api_guilds claimed (Some ''Bearer sess_ab'') 5000 refuse) = claimed"
    using w by blast
  have c: "resolveDiscordTokenFromAuthHeader
        (foldl step claimed
           [Me (Some ''Bearer sess_ab'') 5000 accept, Cleanup 6000, Guilds (Some ''Bearer sess_ab'') 6500 refuse])
        7000 (Some (''Bearer '' @ ''sess_ab'')) = Some ''tok''"
    using w [THEN conjunct2, THEN conjunct2, THEN conjunct2] by (simp only: row.simps)
  show ?thesis using a b c by (intro conjI)
qed

section \<open>What the maps hold\<close>








section \<open>Single use\<close>

text \<open>What a move can do to an entry of the deviceCodes map.\<close>

lemma deviceCodes_play:
  assumes "map_get (deviceCodes (play s m)) c = Some v"
  shows "map_get (deviceCodes s) c = Some v
       \<or> (\<exists>row. map_get (deviceCodes s) c = Some row \<and> v = row\<lparr>used := True\<rparr>)
       \<or> reissues c m"
proof (cases m)
  case (Whole e)
  with deviceCodes_step [of s e c v] assms show ?thesis
    by auto
next
  case (Finish p fetch now2 r1 r2)
  with st_claim_end [of s p fetch now2 r1 r2] assms show ?thesis
    by (auto simp: map_get_set_used split: option.splits if_splits)
qed

lemma spent_play:
  assumes "spent s c" and "\<not> reissues c m"
  shows "spent (play s m) c"
proof (cases "map_get (deviceCodes (play s m)) c")
  case None
  then show ?thesis by (simp add: spent_def)
next
  case (Some d)
  from deviceCodes_play [OF Some] assms have "used d"
    by (auto simp: spent_def)
  with Some show ?thesis by (simp add: spent_def)
qed

lemma spent_foldl: "spent s c \<Longrightarrow> \<forall>m\<in>set ms. \<not> reissues c m \<Longrightarrow> spent (foldl play s ms) c"
  by (induction ms arbitrary: s) (simp_all add: spent_play)

lemma held_play:
  assumes "held s c i" and "\<not> reissues c m"
  shows "held (play s m) c i"
proof (cases "map_get (deviceCodes (play s m)) c")
  case None
  then show ?thesis by (simp add: held_def)
next
  case (Some d)
  from deviceCodes_play [OF Some] assms have "used d \<or> oid d = i"
    by (auto simp: held_def)
  with Some show ?thesis by (simp add: held_def)
qed

lemma held_foldl: "held s c i \<Longrightarrow> \<forall>m\<in>set ms. \<not> reissues c m \<Longrightarrow> held (foldl play s ms) c i"
  by (induction ms arbitrary: s) (simp_all add: held_play)

text \<open>A claim answered 200 has written \<^verbatim>\<open>row.used = true\<close> to the object it held.\<close>

lemma claim_end_ok:
  assumes "res_status (resp (claim_end s p fetch now2 r1 r2)) = 200"
  shows "deviceCodes (st (claim_end s p fetch now2 r1 r2))
           = set_used (deviceCodes s) (p_key p) (oid (p_row p))"
  using assms
  by (cases "fetch (UsersMe (Some (JStr (discord_access_token (p_row p)))))")
     (auto simp: claim_end_def Let_def reply_def server_error_def split: if_splits option.splits)

lemma held_set_used:
  assumes "held s c i" and "deviceCodes s' = set_used (deviceCodes s) c i"
  shows "spent s' c"
  using assms by (auto simp: held_def spent_def map_get_set_used split: option.splits)

lemma claim_begin_spent:
  assumes "spent s c" and "c \<noteq> []" and "field req_body ''device_code'' = Some (JStr c)"
  shows "claim_begin s req_body now1 =
     Inl \<lparr>resp = \<lparr>res_status = 400,
              res_body = Json (JObj [(''error'',
                JStr (if map_get (deviceCodes s) c = None then ''invalid_code'' else ''already_used''))])\<rparr>,
          st = s, calls = []\<rparr>"
  using assms
  by (auto simp: claim_begin_def Let_def reply_def error_def spent_def split: option.splits)

text \<open>
  C3, amended. Device codes are single-use for claims that come one after another. Let
  a claim of a code pass its tests and wait for the provider, let any moves happen
  meanwhile, and let the claim then be answered 200; let any moves happen afterwards.
  The moves are requests, sweeps and the second parts of other claims that were waiting,
  whatever they hold; none of them is a start request that generates the same code
  again. Then, when the claim is answered, the map holds the code as used or, if the
  entry has been swept meanwhile, not at all (as used, when nothing happened
  meanwhile); and every claim of the code that begins afterwards is answered at once
  with status 400, changes nothing in the store, so creates no session, and does not
  call the provider. Its error is \<open>already_used\<close> as long as the entry is still stored,
  and \<open>invalid_code\<close> once the sweep has deleted the used entry. A claim that was
  already waiting for the provider when the first one was answered is not covered.
\<close>

theorem single_use:
  fixes s s1 s2 :: state and ms ns :: "move list" and p :: pending and fetch :: fetch
    and now2 :: int and r1 r2 :: string
  defines "s1 \<equiv> st (claim_end (foldl play s ms) p fetch now2 r1 r2)"
    and "s2 \<equiv> foldl play (st (claim_end (foldl play s ms) p fetch now2 r1 r2)) ns"
  assumes "claim_begin s req_body now1 = Inr p"
    and "field req_body ''device_code'' = Some (JStr c)"
    and "\<forall>m\<in>set ms. \<not> reissues c m"
    and "res_status (resp (claim_end (foldl play s ms) p fetch now2 r1 r2)) = 200"
    and "\<forall>m\<in>set ns. \<not> reissues c m"
    and "field req_body' ''device_code'' = Some (JStr c)"
  shows "(\<forall>row. map_get (deviceCodes s1) c = Some row \<longrightarrow> used row)
       \<and> (ms = [] \<longrightarrow> map_option used (map_get (deviceCodes s1) c) = Some True)
       \<and> claim_begin s2 req_body' now1' =
           Inl \<lparr>resp = \<lparr>res_status = 400,
                    res_body = Json (JObj [(''error'',
                      JStr (if map_get (deviceCodes s2) c = None
                            then ''invalid_code'' else ''already_used''))])\<rparr>,
                st = s2, calls = []\<rparr>
       \<and> device_claim s2 req_body' now1' fetch' now2' r1' r2' =
           \<lparr>resp = \<lparr>res_status = 400,
                    res_body = Json (JObj [(''error'',
                      JStr (if map_get (deviceCodes s2) c = None
                            then ''invalid_code'' else ''already_used''))])\<rparr>,
            st = s2, calls = []\<rparr>"
proof -
  from assms(3,4) obtain row where
    ne: "c \<noteq> []" and row: "map_get (deviceCodes s) c = Some row"
    and p: "p = \<lparr>p_key = c, p_row = row, p_device_name = field req_body ''device_name''\<rparr>"
    unfolding claim_begin_Inr by auto
  have "held s c (oid row)"
    by (simp add: held_def row)
  then have h: "held (foldl play s ms) c (oid row)"
    using assms(5) by (rule held_foldl)
  have d: "deviceCodes s1 = set_used (deviceCodes (foldl play s ms)) c (oid row)"
    unfolding s1_def using claim_end_ok [OF assms(6)] by (simp add: p)
  have sp1: "spent s1 c"
    using h d by (rule held_set_used)
  have first: "\<forall>row. map_get (deviceCodes s1) c = Some row \<longrightarrow> used row"
    using sp1 by (simp add: spent_def split: option.splits)
  have alone: "ms = [] \<longrightarrow> map_option used (map_get (deviceCodes s1) c) = Some True"
    using row by (simp add: d set_used_same map_get_set)
  have "spent s2 c"
    unfolding s2_def using sp1 assms(7) unfolding s1_def by (rule spent_foldl)
  from claim_begin_spent [OF this ne assms(8)]
  have b: "claim_begin s2 req_body' now1' =
           Inl \<lparr>resp = \<lparr>res_status = 400,
                    res_body = Json (JObj [(''error'',
                      JStr (if map_get (deviceCodes s2) c = None
                            then ''invalid_code'' else ''already_used''))])\<rparr>,
                st = s2, calls = []\<rparr>" .
  show ?thesis
    using first alone b by (simp add: device_claim_def)
qed

lemma begin_started: "claim_begin started claim_body 1000 = Inr waiting"
  by (simp add: claim_begin_def field_claim_body started_code waiting_def Let_def)

lemma end_started: "claim_end started waiting accept 1001 ''a'' ''b'' =
    device_claim started claim_body 1000 accept 1001 ''a'' ''b''"
  by (simp add: device_claim_def begin_started)

lemma st_end_started: "st (claim_end started waiting accept 1001 ''a'' ''b'') = claimed"
  by (simp add: end_started claimed_def)

text \<open>
  The code of \<open>started\<close> is claimed, which gives \<open>claimed\<close>; it is claimed again at once,
  and again after a sweep. Then the same with another claim of the code in flight: both
  began in \<open>started\<close>, the other one is answered first, and a claim that begins after
  both is rejected.
\<close>

theorem single_use_witness:
  "device_claim claimed claim_body 3000 accept 3001 ''c'' ''d'' =
     \<lparr>resp = \<lparr>res_status = 400, res_body = Json (JObj [(''error'', JStr ''already_used'')])\<rparr>,
      st = claimed, calls = []\<rparr>
   \<and> device_claim (play claimed (Whole (Cleanup 2000))) claim_body 3000 accept 3001 ''c'' ''d'' =
     \<lparr>resp = \<lparr>res_status = 400, res_body = Json (JObj [(''error'', JStr ''invalid_code'')])\<rparr>,
      st = play claimed (Whole (Cleanup 2000)), calls = []\<rparr>
   \<and> res_status (resp (device_claim
        (st (claim_end (play started (Finish waiting accept 1001 ''x'' ''y'')) waiting accept 1002 ''a'' ''b''))
        claim_body 3000 accept 3001 ''c'' ''d'')) = 400"
proof -
  have 3: "map_get (deviceCodes (cleanup claimed 2000)) ''ABCD-EFGH-JKMN'' = None"
    by (simp add: deviceCodes_cleanup map_get_sweep claimed_eq map_get_set)
  have 4: "map_get (deviceCodes claimed) ''ABCD-EFGH-JKMN'' \<noteq> None"
    by (simp add: claimed_eq map_get_set)
  have ok1: "res_status (resp (claim_end (foldl play started []) waiting accept 1001 ''a'' ''b'')) = 200"
    using claim_started_ok by (simp add: end_started)
  have ok2: "res_status (resp (claim_end (foldl play started [Finish waiting accept 1001 ''x'' ''y''])
      waiting accept 1002 ''a'' ''b'')) = 200"
    by (simp add: claim_end_def waiting_def accept_def ok_def reply_def Let_def)
  note w = single_use [OF begin_started field_claim_body(1) _ _ _ field_claim_body(1)]
  have a: "device_claim claimed claim_body 3000 accept 3001 ''c'' ''d'' =
     \<lparr>resp = \<lparr>res_status = 400, res_body = Json (JObj [(''error'', JStr ''already_used'')])\<rparr>,
      st = claimed, calls = []\<rparr>"
    using w [where ms = "[]" and ns = "[]", OF _ ok1, where ?now1'.0 = 3000 and fetch' = accept
        and ?now2'.0 = 3001 and ?r1'.0 = "''c''" and ?r2'.0 = "''d''"]
    by (simp add: st_end_started 4)
  have b: "device_claim (play claimed (Whole (Cleanup 2000))) claim_body 3000 accept 3001 ''c'' ''d'' =
     \<lparr>resp = \<lparr>res_status = 400, res_body = Json (JObj [(''error'', JStr ''invalid_code'')])\<rparr>,
      st = play claimed (Whole (Cleanup 2000)), calls = []\<rparr>"
    using w [where ms = "[]" and ns = "[Whole (Cleanup 2000)]", OF _ ok1, where ?now1'.0 = 3000
        and fetch' = accept and ?now2'.0 = 3001 and ?r1'.0 = "''c''" and ?r2'.0 = "''d''"]
    by (simp add: st_end_started 3)
  have c: "res_status (resp (device_claim
        (st (claim_end (play started (Finish waiting accept 1001 ''x'' ''y'')) waiting accept 1002 ''a'' ''b''))
        claim_body 3000 accept 3001 ''c'' ''d'')) = 400"
    using w [where ms = "[Finish waiting accept 1001 ''x'' ''y'']" and ns = "[]", OF _ ok2,
        where ?now1'.0 = 3000 and fetch' = accept and ?now2'.0 = 3001 and ?r1'.0 = "''c''"
          and ?r2'.0 = "''d''"]
    by simp
  show ?thesis using a b c by (intro conjI)
qed

text \<open>
  C3 as stated fails once the sweep has run: the code of \<open>started\<close> is claimed with
  success at time 1000, the sweep of time 2000 deletes the used entry, and the claim of
  the same code at time 3000 is answered \<open>invalid_code\<close>, not \<open>already_used\<close>.
\<close>

theorem claim_after_sweep_counterexample:
  "res_status (resp (device_claim started claim_body 1000 accept 1001 ''a'' ''b'')) = 200
   \<and> claimed = st (device_claim started claim_body 1000 accept 1001 ''a'' ''b'')
   \<and> resp (device_claim (cleanup claimed 2000) claim_body 3000 accept 3001 ''c'' ''d'') =
        \<lparr>res_status = 400, res_body = Json (JObj [(''error'', JStr ''invalid_code'')])\<rparr>
   \<and> resp (device_claim (cleanup claimed 2000) claim_body 3000 accept 3001 ''c'' ''d'') \<noteq>
        \<lparr>res_status = 400, res_body = Json (JObj [(''error'', JStr ''already_used'')])\<rparr>"
proof -
  have 2: "claimed = st (device_claim started claim_body 1000 accept 1001 ''a'' ''b'')"
    by (simp add: claimed_def)
  have "map_get (deviceCodes (cleanup claimed 2000)) ''ABCD-EFGH-JKMN'' = None"
    by (simp add: deviceCodes_cleanup map_get_sweep claimed_eq map_get_set)
  then have 3: "resp (device_claim (cleanup claimed 2000) claim_body 3000 accept 3001 ''c'' ''d'') =
        \<lparr>res_status = 400, res_body = Json (JObj [(''error'', JStr ''invalid_code'')])\<rparr>"
    by (simp add: claim_defs field_claim_body reply_def error_def Let_def)
  show ?thesis using claim_started_ok 2 3 by simp
qed

text \<open>
  Two claims of one code that overlap are both answered 200 and store two sessions: both
  pass the tests in \<open>started\<close> and wait; the first is answered at time 1001, the second
  at time 1002.
\<close>

lemma overlapping_claims:
  "claim_begin started claim_body 1000 = Inr waiting
   \<and> res_status (resp (claim_end started waiting accept 1001 ''a'' ''b'')) = 200
   \<and> res_status (resp (claim_end (st (claim_end started waiting accept 1001 ''a'' ''b''))
        waiting accept 1002 ''c'' ''d'')) = 200
   \<and> map (fst) (entries (sessions (st (claim_end (st (claim_end started waiting accept 1001 ''a'' ''b''))
        waiting accept 1002 ''c'' ''d'')))) = [''sess_ab'', ''sess_cd'']"
proof -
  have 2: "res_status (resp (claim_end started waiting accept 1001 ''a'' ''b'')) = 200"
    using claim_started_ok by (simp add: end_started)
  have 3: "res_status (resp (claim_end claimed waiting accept 1002 ''c'' ''d'')) = 200"
    by (simp add: claim_end_def waiting_def accept_def ok_def reply_def Let_def)
  have 4: "map (fst) (entries (sessions (st (claim_end claimed waiting accept 1002 ''c'' ''d''))))
      = [''sess_ab'', ''sess_cd'']"
    by (simp add: claim_end_def waiting_def accept_def ok_def reply_def Let_def claimed_eq
        genSessionToken_def entries_set entries_empty)
  show ?thesis
    using begin_started 2 3 4 by (simp add: st_end_started)
qed

section \<open>Provider failures\<close>



text \<open>
  A user lookup answered ok with the body \<^verbatim>\<open>null\<close> makes the claim throw at
  \<^verbatim>\<open>me.id\<close>, after the code was marked used and the session stored: the answer is 500
  and the changes stay.
\<close>

lemma device_claim_null_body:
  assumes "field req_body ''device_code'' = Some (JStr c)" and "c \<noteq> []"
    and "map_get (deviceCodes s) c = Some row" and "\<not> used row" and "now1 \<le> exp row"
    and "fetch (UsersMe (Some (JStr (discord_access_token row)))) = Some r" and "ok r"
    and "parsed r = Some JNull"
  shows "resp (device_claim s req_body now1 fetch now2 r1 r2) =
           \<lparr>res_status = 500, res_body = Json (JObj [(''error'', JStr ''server_error'')])\<rparr>
       \<and> map_option used (map_get (deviceCodes (st (device_claim s req_body now1 fetch now2 r1 r2))) c)
           = Some True
       \<and> map_get (sessions (st (device_claim s req_body now1 fetch now2 r1 r2))) (genSessionToken r1 r2)
           \<noteq> None"
  using assms
  by (simp add: claim_defs Let_def server_error_def reply_def error_def map_get_set)

text \<open>
  C6, amended. Upstream failures are reflected back with the provider's body attached,
  when the body can be read. \<^verbatim>\<open>POST /api/auth/discord\<close> parses the provider's answer
  to the token exchange as JSON before it looks at the status: when the status is not ok
  and the body is JSON, the answer is 400 \<open>token_exchange_failed\<close> with that JSON value
  as details; when the body is not JSON, the answer is 500 \<open>server_error\<close> without the
  provider's body, whatever the status. When, in a store the server reaches, the
  provider answers the call of \<^verbatim>\<open>GET /api/me\<close> or \<^verbatim>\<open>GET /api/discord/guilds\<close> with a
  status that is not ok, the answer has the provider's status, the error
  \<open>discord_error\<close> and the provider's body as text. In each case the provider was
  called once: there is no retry.
\<close>

theorem upstream_failures:
  "(truthy (field req_body ''code'')
      \<and> fetch (OAuthToken (DISCORD_CLIENT_ID cfg) (DISCORD_CLIENT_SECRET cfg) (field req_body ''code'')
                 (js_or (field req_body ''redirect_uri'') (map_option JStr (DISCORD_REDIRECT_URI cfg))))
          = Some r
      \<and> \<not> ok r \<and> parsed r = Some j \<longrightarrow>
    auth_discord cfg s fetch req_body =
      \<lparr>resp = \<lparr>res_status = 400,
               res_body = Json (JObj [(''error'', JStr ''token_exchange_failed''), (''details'', j)])\<rparr>,
       st = s,
       calls = [OAuthToken (DISCORD_CLIENT_ID cfg) (DISCORD_CLIENT_SECRET cfg) (field req_body ''code'')
                  (js_or (field req_body ''redirect_uri'') (map_option JStr (DISCORD_REDIRECT_URI cfg)))]\<rparr>)
   \<and> (truthy (field req_body ''code'')
      \<and> fetch (OAuthToken (DISCORD_CLIENT_ID cfg) (DISCORD_CLIENT_SECRET cfg) (field req_body ''code'')
                 (js_or (field req_body ''redirect_uri'') (map_option JStr (DISCORD_REDIRECT_URI cfg))))
          = Some r
      \<and> parsed r = None \<longrightarrow>
    auth_discord cfg s fetch req_body =
      \<lparr>resp = \<lparr>res_status = 500, res_body = Json (JObj [(''error'', JStr ''server_error'')])\<rparr>,
       st = s,
       calls = [OAuthToken (DISCORD_CLIENT_ID cfg) (DISCORD_CLIENT_SECRET cfg) (field req_body ''code'')
                  (js_or (field req_body ''redirect_uri'') (map_option JStr (DISCORD_REDIRECT_URI cfg)))]\<rparr>)
   \<and> (reachable s \<and> resolveDiscordTokenFromAuthHeader s now authorization = Some tok
      \<and> fetch (UsersMe (Some (JStr tok))) = Some r \<and> \<not> ok r \<longrightarrow>
    api_me s authorization now fetch =
      \<lparr>resp = \<lparr>res_status = status r,
               res_body = Json (JObj [(''error'', JStr ''discord_error''), (''body'', JStr (text_of r))])\<rparr>,
       st = s, calls = [UsersMe (Some (JStr tok))]\<rparr>)
   \<and> (reachable s \<and> resolveDiscordTokenFromAuthHeader s now authorization = Some tok
      \<and> fetch (UsersMeGuilds (Some (JStr tok))) = Some r \<and> \<not> ok r \<longrightarrow>
    api_guilds s authorization now fetch =
      \<lparr>resp = \<lparr>res_status = status r,
               res_body = Json (JObj [(''error'', JStr ''discord_error''), (''body'', JStr (text_of r))])\<rparr>,
       st = s, calls = [UsersMeGuilds (Some (JStr tok))]\<rparr>)"
proof (intro conjI impI)
  assume "truthy (field req_body ''code'')
      \<and> fetch (OAuthToken (DISCORD_CLIENT_ID cfg) (DISCORD_CLIENT_SECRET cfg) (field req_body ''code'')
                 (js_or (field req_body ''redirect_uri'') (map_option JStr (DISCORD_REDIRECT_URI cfg))))
          = Some r
      \<and> \<not> ok r \<and> parsed r = Some j"
  then show "auth_discord cfg s fetch req_body =
      \<lparr>resp = \<lparr>res_status = 400,
               res_body = Json (JObj [(''error'', JStr ''token_exchange_failed''), (''details'', j)])\<rparr>,
       st = s,
       calls = [OAuthToken (DISCORD_CLIENT_ID cfg) (DISCORD_CLIENT_SECRET cfg) (field req_body ''code'')
                  (js_or (field req_body ''redirect_uri'') (map_option JStr (DISCORD_REDIRECT_URI cfg)))]\<rparr>"
    by (simp add: auth_discord_def Let_def reply_def error_def)
next
  assume "truthy (field req_body ''code'')
      \<and> fetch (OAuthToken (DISCORD_CLIENT_ID cfg) (DISCORD_CLIENT_SECRET cfg) (field req_body ''code'')
                 (js_or (field req_body ''redirect_uri'') (map_option JStr (DISCORD_REDIRECT_URI cfg))))
          = Some r
      \<and> parsed r = None"
  then show "auth_discord cfg s fetch req_body =
      \<lparr>resp = \<lparr>res_status = 500, res_body = Json (JObj [(''error'', JStr ''server_error'')])\<rparr>,
       st = s,
       calls = [OAuthToken (DISCORD_CLIENT_ID cfg) (DISCORD_CLIENT_SECRET cfg) (field req_body ''code'')
                  (js_or (field req_body ''redirect_uri'') (map_option JStr (DISCORD_REDIRECT_URI cfg)))]\<rparr>"
    by (simp add: auth_discord_def Let_def server_error_def reply_def error_def)
next
  assume a: "reachable s \<and> resolveDiscordTokenFromAuthHeader s now authorization = Some tok
      \<and> fetch (UsersMe (Some (JStr tok))) = Some r \<and> \<not> ok r"
  then have "tok \<noteq> []"
    using reachable_resolve by blast
  with a show "api_me s authorization now fetch =
      \<lparr>resp = \<lparr>res_status = status r,
               res_body = Json (JObj [(''error'', JStr ''discord_error''), (''body'', JStr (text_of r))])\<rparr>,
       st = s, calls = [UsersMe (Some (JStr tok))]\<rparr>"
    by (simp add: api_me_def Let_def reply_def error_def)
next
  assume a: "reachable s \<and> resolveDiscordTokenFromAuthHeader s now authorization = Some tok
      \<and> fetch (UsersMeGuilds (Some (JStr tok))) = Some r \<and> \<not> ok r"
  then have "tok \<noteq> []"
    using reachable_resolve by blast
  with a show "api_guilds s authorization now fetch =
      \<lparr>resp = \<lparr>res_status = status r,
               res_body = Json (JObj [(''error'', JStr ''discord_error''), (''body'', JStr (text_of r))])\<rparr>,
       st = s, calls = [UsersMeGuilds (Some (JStr tok))]\<rparr>"
    by (simp add: api_guilds_def Let_def reply_def error_def)
qed

text \<open>
  A login whose token exchange the provider rejects with status 400 and the empty
  object, one that meets status 502 and a page of HTML, and two lookups whose raw token
  the provider refuses with status 401.
\<close>

theorem upstream_failures_witness:
  "auth_discord no_config init reject login_body =
      \<lparr>resp = \<lparr>res_status = 400,
               res_body = Json (JObj [(''error'', JStr ''token_exchange_failed''), (''details'', JObj [])])\<rparr>,
       st = init, calls = [OAuthToken None None (Some (JStr ''abc'')) None]\<rparr>
   \<and> auth_discord no_config init bad_gateway login_body =
      \<lparr>resp = \<lparr>res_status = 500, res_body = Json (JObj [(''error'', JStr ''server_error'')])\<rparr>,
       st = init, calls = [OAuthToken None None (Some (JStr ''abc'')) None]\<rparr>
   \<and> api_me init (Some ''Bearer xyz'') 0 refuse =
      \<lparr>resp = \<lparr>res_status = 401,
               res_body = Json (JObj [(''error'', JStr ''discord_error''), (''body'', JStr ''Unauthorized'')])\<rparr>,
       st = init, calls = [UsersMe (Some (JStr ''xyz''))]\<rparr>
   \<and> api_guilds init (Some ''Bearer xyz'') 0 refuse =
      \<lparr>resp = \<lparr>res_status = 401,
               res_body = Json (JObj [(''error'', JStr ''discord_error''), (''body'', JStr ''Unauthorized'')])\<rparr>,
       st = init, calls = [UsersMeGuilds (Some (JStr ''xyz''))]\<rparr>"
proof -
  have f: "field login_body ''code'' = Some (JStr ''abc'')" "field login_body ''redirect_uri'' = None"
    by (simp_all add: field_def login_body_def js_or_def)
  have r: "resolveDiscordTokenFromAuthHeader init 0 (Some ''Bearer xyz'') = Some ''xyz''"
    using resolve_Bearer [of init 0 "''xyz''"] by (simp add: init_def map_get_empty)
  note w = upstream_failures [where s = init and now = 0 and authorization = "Some ''Bearer xyz''"
      and tok = "''xyz''" and cfg = no_config and req_body = login_body]
  have a: "auth_discord no_config init reject login_body =
      \<lparr>resp = \<lparr>res_status = 400,
               res_body = Json (JObj [(''error'', JStr ''token_exchange_failed''), (''details'', JObj [])])\<rparr>,
       st = init, calls = [OAuthToken None None (Some (JStr ''abc'')) None]\<rparr>"
    using w [where fetch = reject and r = "\<lparr>status = 400, text_of = ''{}'', parsed = Some (JObj [])\<rparr>"
        and j = "JObj []", THEN conjunct1]
    by (simp add: f no_config_def reject_def ok_def js_or_def)
  have b: "api_me init (Some ''Bearer xyz'') 0 refuse =
      \<lparr>resp = \<lparr>res_status = 401,
               res_body = Json (JObj [(''error'', JStr ''discord_error''), (''body'', JStr ''Unauthorized'')])\<rparr>,
       st = init, calls = [UsersMe (Some (JStr ''xyz''))]\<rparr>"
    using w [where fetch = refuse and r = "\<lparr>status = 401, text_of = ''Unauthorized'', parsed = None\<rparr>",
        THEN conjunct2, THEN conjunct2, THEN conjunct1]
    by (simp add: r reachable_init refuse_def ok_def)
  have c: "api_guilds init (Some ''Bearer xyz'') 0 refuse =
      \<lparr>resp = \<lparr>res_status = 401,
               res_body = Json (JObj [(''error'', JStr ''discord_error''), (''body'', JStr ''Unauthorized'')])\<rparr>,
       st = init, calls = [UsersMeGuilds (Some (JStr ''xyz''))]\<rparr>"
    using w [where fetch = refuse and r = "\<lparr>status = 401, text_of = ''Unauthorized'', parsed = None\<rparr>",
        THEN conjunct2, THEN conjunct2, THEN conjunct2]
    by (simp add: r reachable_init refuse_def ok_def)
  have a': "auth_discord no_config init bad_gateway login_body =
      \<lparr>resp = \<lparr>res_status = 500, res_body = Json (JObj [(''error'', JStr ''server_error'')])\<rparr>,
       st = init, calls = [OAuthToken None None (Some (JStr ''abc'')) None]\<rparr>"
    using w [where fetch = bad_gateway
        and r = "\<lparr>status = 502, text_of = ''<html>502 Bad Gateway</html>'', parsed = None\<rparr>",
        THEN conjunct2, THEN conjunct1]
    by (simp add: f no_config_def bad_gateway_def js_or_def)
  show ?thesis using a a' b c by (intro conjI)
qed

text \<open>
  C6 as stated fails when the provider's answer to the token exchange is not JSON: status
  502 with a page of HTML is not ok, and the answer is 500 \<open>server_error\<close>, not 400
  \<open>token_exchange_failed\<close>, and carries nothing of the provider's body.
\<close>

theorem token_exchange_not_json_counterexample:
  "bad_gateway (OAuthToken None None (Some (JStr ''abc'')) None)
     = Some \<lparr>status = 502, text_of = ''<html>502 Bad Gateway</html>'', parsed = None\<rparr>
   \<and> \<not> ok \<lparr>status = 502, text_of = ''<html>502 Bad Gateway</html>'', parsed = None\<rparr>
   \<and> calls (auth_discord no_config init bad_gateway login_body)
       = [OAuthToken None None (Some (JStr ''abc'')) None]
   \<and> resp (auth_discord no_config init bad_gateway login_body) =
        \<lparr>res_status = 500, res_body = Json (JObj [(''error'', JStr ''server_error'')])\<rparr>
   \<and> res_status (resp (auth_discord no_config init bad_gateway login_body)) \<noteq> 400"
  by (simp add: auth_discord_def field_def login_body_def no_config_def bad_gateway_def ok_def
      js_or_def Let_def server_error_def reply_def error_def)


end
